theory Spec2Isabelle
  imports Complex_Main "HOL-Library.AList" "HOL-Library.Sublist"
begin

section \<open>Data model of the live team map page\<close>

text \<open>
  The page component \<open>LiveSharedMap\<close> keeps its state in React state cells and refs.
  The model gathers them in one record that every handler takes and returns.
  Coordinates are JavaScript numbers: finite doubles, which are real numbers. The
  arithmetic on them is that of the engine, which rounds every result to a double; the
  model takes these operations as a parameter (\<open>number_ops\<close> below), so that what is
  proved of the page holds whatever the rounding is. A distance can also be \<open>NaN\<close>.
  Identifiers and the reconnect counter are natural numbers, timestamps are integers
  (milliseconds). A JavaScript \<open>Map\<close> iterates in insertion order and \<open>set\<close> keeps the
  position of an existing key: it is an association list changed with \<open>AList.update\<close>.
\<close>

text \<open>A path sample is the pair \<open>[lng, lat]\<close>.\<close>

type_synonym point = "real \<times> real"

text \<open>
  The operations on numbers that the page uses: \<open>-\<close>, \<open>+\<close>, \<open>*\<close>, \<open>/\<close>, \<open>Math.sin\<close>,
  \<open>Math.cos\<close>, \<open>Math.sqrt\<close> (of a number that is not negative), \<open>Math.atan2\<close> and the
  constant \<open>Math.PI\<close>, on operands for which the result is finite. In the engine each of
  them returns a double close to the exact result; the model assumes nothing about them.
\<close>

record number_ops =
  js_sub :: "real \<Rightarrow> real \<Rightarrow> real"
  js_add :: "real \<Rightarrow> real \<Rightarrow> real"
  js_mul :: "real \<Rightarrow> real \<Rightarrow> real"
  js_div :: "real \<Rightarrow> real \<Rightarrow> real"
  js_sin :: "real \<Rightarrow> real"
  js_cos :: "real \<Rightarrow> real"
  js_sqrt :: "real \<Rightarrow> real"
  js_atan2 :: "real \<Rightarrow> real \<Rightarrow> real"
  js_PI :: real

text \<open>A number that may be \<open>NaN\<close>.\<close>

datatype number = Num real | NaN

record auth_user =
  user_id :: nat
  username :: string
  fullName :: "string option"

record LiveMapMember =
  userId :: nat
  member_user :: auth_user
  latitude :: "real option"
  longitude :: "real option"
  lastActive :: "int option"

record SessionData =
  session_id :: nat
  ownerId :: nat
  name :: string
  shareCode :: string
  isActive :: bool
  members :: "LiveMapMember list"

text \<open>
  The DOM element of a member marker, reduced to the style properties the handlers
  write: the pulsing dot, the red signal-lost overlay and the signal-lost label. The
  label text is \<open>Signal Lost <time>\<close>; the model keeps the timestamp it shows.
\<close>

record marker =
  lngLat :: point
  dotAnimation :: string
  dotOpacity :: string
  lostOverlayDisplay :: string
  lostLabelSince :: "int option"
  lostLabelDisplay :: string

datatype readyState = CONNECTING | OPEN | CLOSING | CLOSED

text \<open>
  A handler is a closure: it reads \<open>user\<close>, \<open>sessionId\<close> and \<open>session\<close> as they were
  in the render that created it, not as they are when it runs. (The refs, such as
  \<open>map.current\<close> or \<open>reconnectAttemptRef.current\<close>, are read when the handler runs.)
\<close>

record closure =
  cl_user :: "auth_user option"
  cl_sessionId :: "nat option"
  cl_session :: "SessionData option"

text \<open>
  Two places create a socket: \<open>connect\<close> (with \<open>onopen\<close>, \<open>onmessage\<close>, \<open>onerror\<close>
  and \<open>onclose\<close>) and \<open>handleLiveMapResume\<close> (no \<open>onclose\<close>, another \<open>onopen\<close>).
  The handlers of a socket share the closure of the code that created the socket.
\<close>

datatype origin = ViaConnect | ViaResume

record socket =
  ready :: readyState
  createdBy :: origin
  handlers :: closure

datatype ws_message =
    Auth nat
  | SessionJoin "nat option"
  | SessionLocation real real real "real option"

datatype server_message =
    MemberLocationUpdate nat real real
  | MemberJoined | MemberLeft | MemberDisconnected
  | MessageNew
  | PoiCreated | PoiDeleted
  | RouteCreated | RouteDeleted | RouteUpdated
  | SessionEnded
  | OtherMessage

record toast =
  title :: string
  description :: string

record position =
  pos_latitude :: real
  pos_longitude :: real
  pos_accuracy :: real
  pos_heading :: "real option"

text \<open>
  The state of one page. Besides the state cells and refs of the component it holds the
  parts of the browser that the handlers act on:
  \<^item> \<open>numbers\<close> are the number operations of the engine that runs the page;
  \<^item> \<open>mapCurrent\<close> tells whether \<open>map.current\<close> holds a map;
  \<^item> \<open>sockets\<close> are the sockets created so far, \<open>wsRef\<close> is the index of the one in
    \<open>wsRef.current\<close>, and \<open>sent\<close> lists the messages sent, each with its socket;
  \<^item> \<open>timers\<close> are the pending \<open>setTimeout(connect, delay)\<close> calls: handle, delay in
    milliseconds and the closure of \<open>connect\<close>; \<open>nextTimerId\<close> is the next handle;
  \<^item> \<open>geolocation\<close> tells whether \<open>navigator.geolocation\<close> exists, \<open>watches\<close> are the
    subscriptions registered with it, \<open>nextWatchId\<close> is the next watch id;
  \<^item> \<open>location\<close> is the path of the router, \<open>toasts\<close> the notices shown so far, and
    \<open>invalidations\<close> counts the requests to fetch the session again.
\<close>

record client =
  numbers :: number_ops
  user :: "auth_user option"
  sessionId :: "nat option"
  session :: "SessionData option"
  mapCurrent :: bool
  memberPaths :: "(nat \<times> point list) list"
  memberLastUpdateRef :: "(nat \<times> int) list"
  memberMarkersRef :: "(nat \<times> marker) list"
  userLocationRef :: "point option"
  sockets :: "socket list"
  wsRef :: "nat option"
  sent :: "(nat \<times> ws_message) list"
  reconnectAttemptRef :: nat
  intentionalCloseRef :: bool
  reconnectTimeoutRef :: "nat option"
  timers :: "(nat \<times> nat \<times> closure) list"
  nextTimerId :: nat
  geolocation :: bool
  watchIdRef :: "nat option"
  watches :: "nat list"
  nextWatchId :: nat
  location :: string
  toasts :: "toast list"
  invalidations :: nat

section \<open>Path history of the members\<close>

text \<open>\<open>newPaths.get(userId) || []\<close>\<close>

definition pathOf :: "(nat \<times> point list) list \<Rightarrow> nat \<Rightarrow> point list" where
  "pathOf paths uid = (case map_of paths uid of Some p \<Rightarrow> p | None \<Rightarrow> [])"

text \<open>
  The literal \<open>0.00005\<close> of the source is the double nearest to it,
  \<open>0x1.A36E2EB1C432Dp-15\<close>.
\<close>

definition MIN_DISPLACEMENT :: real where
  "MIN_DISPLACEMENT = 7378697629483821 / 2 ^ 67"

text \<open>
  The updater that \<open>updateMemberMarker\<close> passes to \<open>setMemberPaths\<close>: the new sample is
  appended when the path has no last point, or when the longitude or the latitude differs
  from the last point by more than 0.00005 degrees, the differences being computed by the
  engine.
\<close>

definition addToPathHistory ::
    "number_ops \<Rightarrow> nat \<Rightarrow> real \<Rightarrow> real \<Rightarrow> (nat \<times> point list) list \<Rightarrow>
     (nat \<times> point list) list" where
  "addToPathHistory ops uid lat lng prev =
     (let newPaths = prev;
          currentPath = pathOf newPaths uid
      in if (case currentPath of
               [] \<Rightarrow> True
             | _ \<Rightarrow> (let lastPoint = last currentPath
                     in \<bar>js_sub ops (fst lastPoint) lng\<bar> > MIN_DISPLACEMENT \<or>
                        \<bar>js_sub ops (snd lastPoint) lat\<bar> > MIN_DISPLACEMENT))
         then AList.update uid (currentPath @ [(lng, lat)]) newPaths
         else newPaths)"

text \<open>The marker that \<open>updateMemberMarker\<close> builds for a member seen for the first time.\<close>

definition newMarker :: "real \<Rightarrow> real \<Rightarrow> marker" where
  "newMarker lat lng =
     \<lparr> lngLat = (lng, lat),
       dotAnimation = ''member-pulse 2s ease-in-out infinite'',
       dotOpacity = '''',
       lostOverlayDisplay = ''none'',
       lostLabelSince = None,
       lostLabelDisplay = ''none'' \<rparr>"

text \<open>What \<open>updateMemberMarker\<close> does to the marker that exists already.\<close>

definition refreshMarker :: "real \<Rightarrow> real \<Rightarrow> marker \<Rightarrow> marker" where
  "refreshMarker lat lng m =
     m\<lparr> lngLat := (lng, lat),
        dotAnimation := ''member-pulse 2s ease-in-out infinite'',
        dotOpacity := ''1'',
        lostOverlayDisplay := ''none'',
        lostLabelDisplay := ''none'' \<rparr>"

text \<open>
  \<open>updateMemberMarker(userId, lat, lng)\<close>, with \<open>now\<close> the value of \<open>Date.now()\<close>. The
  function is made anew (\<open>useCallback\<close>) whenever \<open>user\<close> or \<open>session.members\<close> change;
  \<open>cl\<close> holds the \<open>user\<close> and \<open>session\<close> of the copy that is called. It returns at once
  while the map or the member list is missing; the path history is updated for every
  member, the time stamp and the marker only for the others. The colour and the name
  label of the marker are not modelled.
\<close>

definition updateMemberMarker ::
    "closure \<Rightarrow> nat \<Rightarrow> real \<Rightarrow> real \<Rightarrow> int \<Rightarrow> client \<Rightarrow> client" where
  "updateMemberMarker cl uid lat lng now st =
     (if \<not> mapCurrent st \<or> cl_session cl = None then st
      else
        let st1 = st\<lparr> memberPaths :=
                        addToPathHistory (numbers st) uid lat lng (memberPaths st) \<rparr>
        in if Some uid = map_option user_id (cl_user cl) then st1
           else
             let st2 = st1\<lparr> memberLastUpdateRef := AList.update uid now (memberLastUpdateRef st1) \<rparr>
             in (case map_of (memberMarkersRef st2) uid of
                   Some existingMarker \<Rightarrow>
                     st2\<lparr> memberMarkersRef :=
                            AList.update uid (refreshMarker lat lng existingMarker) (memberMarkersRef st2) \<rparr>
                 | None \<Rightarrow>
                     st2\<lparr> memberMarkersRef :=
                            AList.update uid (newMarker lat lng) (memberMarkersRef st2) \<rparr>))"

text \<open>The accumulated path of a member in a client state.\<close>

definition memberPath :: "client \<Rightarrow> nat \<Rightarrow> point list" where
  "memberPath st uid = pathOf (memberPaths st) uid"

text \<open>
  The displacement that the threshold test of \<open>addToPathHistory\<close> measures between the
  last point \<open>p\<close> and the new sample \<open>q\<close>: the larger of the two coordinate differences
  as the engine computes them, in degrees.
\<close>

definition displacement :: "number_ops \<Rightarrow> point \<Rightarrow> point \<Rightarrow> real" where
  "displacement ops p q = max \<bar>js_sub ops (fst p) (fst q)\<bar> \<bar>js_sub ops (snd p) (snd q)\<bar>"

text \<open>Feeding a list of location updates \<open>(lat, lng, now)\<close> of one member, in order.\<close>

definition feedLocations ::
    "closure \<Rightarrow> nat \<Rightarrow> (real \<times> real \<times> int) list \<Rightarrow> client \<Rightarrow> client" where
  "feedLocations cl uid ups st =
     fold (\<lambda>(lat, lng, now). updateMemberMarker cl uid lat lng now) ups st"

text \<open>The closure of a handler that the current render creates.\<close>

definition currentClosure :: "client \<Rightarrow> closure" where
  "currentClosure st = \<lparr> cl_user = user st, cl_sessionId = sessionId st, cl_session = session st \<rparr>"

section \<open>Signal-lost sweep\<close>

definition SIGNAL_LOST_THRESHOLD :: int where
  "SIGNAL_LOST_THRESHOLD = 2 * 60 * 1000"

text \<open>
  The effect runs \<open>checkSignalLost\<close> once after 2000 ms (\<open>setTimeout\<close>) and then every
  15000 ms (\<open>setInterval\<close>); the delays are in milliseconds.
\<close>

definition SIGNAL_CHECK_INITIAL_DELAY :: int where
  "SIGNAL_CHECK_INITIAL_DELAY = 2000"

definition SIGNAL_CHECK_INTERVAL :: int where
  "SIGNAL_CHECK_INTERVAL = 15000"

text \<open>The branch of \<open>checkSignalLost\<close> for a member whose signal is lost.\<close>

definition showSignalLost :: "int \<Rightarrow> marker \<Rightarrow> marker" where
  "showSignalLost lastUpdate el =
     el\<lparr> dotAnimation := ''none'',
         dotOpacity := ''0.5'',
         lostOverlayDisplay := ''block'',
         lostLabelSince := Some lastUpdate,
         lostLabelDisplay := ''block'' \<rparr>"

text \<open>
  The body of the \<open>forEach\<close> over \<open>memberLastUpdateRef\<close>: \<open>me\<close> is \<open>user?.id\<close>. The
  local user and the members without a marker are skipped.
\<close>

definition checkSignalLostEntry ::
    "nat option \<Rightarrow> int \<Rightarrow> nat \<times> int \<Rightarrow> (nat \<times> marker) list \<Rightarrow> (nat \<times> marker) list" where
  "checkSignalLostEntry me now entry markers =
     (let uid = fst entry; lastUpdate = snd entry
      in if Some uid = me then markers
         else (case map_of markers uid of
                 None \<Rightarrow> markers
               | Some el \<Rightarrow>
                   (let elapsed = now - lastUpdate
                    in if elapsed > SIGNAL_LOST_THRESHOLD
                       then AList.update uid (showSignalLost lastUpdate el) markers
                       else AList.update uid (el\<lparr> dotOpacity := ''1'' \<rparr>) markers)))"

definition checkSignalLost :: "int \<Rightarrow> client \<Rightarrow> client" where
  "checkSignalLost now st =
     st\<lparr> memberMarkersRef :=
           fold (checkSignalLostEntry (map_option user_id (user st)) now)
                (memberLastUpdateRef st) (memberMarkersRef st) \<rparr>"

text \<open>The members the page presents as having lost their signal.\<close>

definition signalLost :: "client \<Rightarrow> nat \<Rightarrow> bool" where
  "signalLost st uid =
     (case map_of (memberMarkersRef st) uid of
        None \<Rightarrow> False
      | Some el \<Rightarrow> lostOverlayDisplay el = ''block'')"

section \<open>Markers seeded from the session data\<close>

text \<open>
  The effect that renders the member markers from the loaded session and seeds the
  time stamps with the members' \<open>lastActive\<close>. It runs again whenever the members, the
  user or \<open>updateMemberMarker\<close> change, so that it calls the current copy of that
  function. The coordinates of a member are strings in the source (\<open>parseFloat\<close>); the
  model holds the parsed numbers.
\<close>

definition seedMember :: "int \<Rightarrow> LiveMapMember \<Rightarrow> client \<Rightarrow> client" where
  "seedMember now member st =
     (case (latitude member, longitude member) of
        (Some lat, Some lng) \<Rightarrow>
          (let st1 = updateMemberMarker (currentClosure st) (userId member) lat lng now st
           in (case lastActive member of
                 Some t \<Rightarrow>
                   if Some (userId member) \<noteq> map_option user_id (user st)
                   then st1\<lparr> memberLastUpdateRef :=
                               AList.update (userId member) t (memberLastUpdateRef st1) \<rparr>
                   else st1
               | None \<Rightarrow> st1))
      | _ \<Rightarrow> st)"

definition seedMemberMarkers :: "int \<Rightarrow> client \<Rightarrow> client" where
  "seedMemberMarkers now st =
     (case session st of
        None \<Rightarrow> st
      | Some s \<Rightarrow> if \<not> mapCurrent st then st else fold (seedMember now) (members s) st)"

section \<open>The WebSocket connection and its reconnection\<close>

text \<open>A JavaScript id is falsy when it is missing or 0 (\<open>!sessionId\<close>, \<open>user?.id || 0\<close>).\<close>

definition truthy :: "nat option \<Rightarrow> bool" where
  "truthy x = (case x of None \<Rightarrow> False | Some n \<Rightarrow> n \<noteq> 0)"

fun string_of_nat :: "nat \<Rightarrow> string" where
  "string_of_nat n =
     (if n < 10 then [''0123456789'' ! n]
      else string_of_nat (n div 10) @ [''0123456789'' ! (n mod 10)])"

declare string_of_nat.simps [simp del]

text \<open>\<open>new WebSocket(...)\<close> stored in \<open>wsRef.current\<close>; a socket is named by its index.\<close>

definition newSocket :: "origin \<Rightarrow> closure \<Rightarrow> client \<Rightarrow> client" where
  "newSocket orig cl st =
     st\<lparr> sockets := sockets st @ [\<lparr> ready = CONNECTING, createdBy = orig, handlers = cl \<rparr>],
         wsRef := Some (length (sockets st)) \<rparr>"

text \<open>\<open>connect\<close> is a function of the WebSocket effect: \<open>cl\<close> is the closure of that effect.\<close>

definition connect :: "closure \<Rightarrow> client \<Rightarrow> client" where
  "connect cl st = newSocket ViaConnect cl st"

text \<open>
  \<open>ws.onopen\<close> of \<open>connect\<close>. The closure holds the user of the effect, which is
  present whenever \<open>connect\<close> runs.
\<close>

definition connect_onopen :: "closure \<Rightarrow> nat \<Rightarrow> client \<Rightarrow> client" where
  "connect_onopen cl ws st =
     (let st1 = st\<lparr> reconnectAttemptRef := 0 \<rparr>
      in (case cl_user cl of
            None \<Rightarrow> st1
          | Some u \<Rightarrow>
              st1\<lparr> sent := sent st1 @ [(ws, Auth (user_id u)), (ws, SessionJoin (cl_sessionId cl))] \<rparr>))"

text \<open>
  \<open>ws.onclose\<close> of \<open>connect\<close>: the timer runs \<open>connect\<close>, of the same effect, after
  \<open>delay\<close> milliseconds.
\<close>

definition connect_onclose :: "closure \<Rightarrow> client \<Rightarrow> client" where
  "connect_onclose cl st =
     (if \<not> intentionalCloseRef st then
        (let attempt = reconnectAttemptRef st;
             delay = min (1000 * 2 ^ attempt) 30000
         in st\<lparr> reconnectAttemptRef := attempt + 1,
                toasts := toasts st @
                  [\<lparr> title = ''Reconnecting...'',
                     description = ''Connection lost. Retrying in '' @
                       string_of_nat (nat (round (real delay / 1000))) @ ''s...'' \<rparr>],
                timers := timers st @ [(nextTimerId st, delay, cl)],
                reconnectTimeoutRef := Some (nextTimerId st),
                nextTimerId := nextTimerId st + 1 \<rparr>)
      else st)"

text \<open>The \<open>session:ended\<close> case of \<open>ws.onmessage\<close> of \<open>connect\<close>.\<close>

definition sessionEndedNotice :: toast where
  "sessionEndedNotice =
     \<lparr> title = ''Session ended'',
       description = ''The session owner has ended this live team map'' \<rparr>"

text \<open>\<open>queryClient.invalidateQueries\<close>: the session is fetched again; the model counts the calls.\<close>

definition invalidateQueries :: "client \<Rightarrow> client" where
  "invalidateQueries st = st\<lparr> invalidations := invalidations st + 1 \<rparr>"

fun connect_onmessage :: "closure \<Rightarrow> server_message \<Rightarrow> int \<Rightarrow> client \<Rightarrow> client" where
  "connect_onmessage cl (MemberLocationUpdate uid lat lng) now st =
     updateMemberMarker cl uid lat lng now st"
| "connect_onmessage cl MemberJoined now st = invalidateQueries st"
| "connect_onmessage cl MemberLeft now st = invalidateQueries st"
| "connect_onmessage cl MemberDisconnected now st = invalidateQueries st"
| "connect_onmessage cl MessageNew now st = invalidateQueries st"
| "connect_onmessage cl PoiCreated now st = invalidateQueries st"
| "connect_onmessage cl PoiDeleted now st = invalidateQueries st"
| "connect_onmessage cl RouteCreated now st = invalidateQueries st"
| "connect_onmessage cl RouteDeleted now st = invalidateQueries st"
| "connect_onmessage cl RouteUpdated now st = invalidateQueries st"
| "connect_onmessage cl SessionEnded now st =
     st\<lparr> toasts := toasts st @ [sessionEndedNotice], location := ''/'' \<rparr>"
| "connect_onmessage cl OtherMessage now st = st"

text \<open>The handlers of the socket that \<open>handleLiveMapResume\<close> creates.\<close>

definition resume_onopen :: "closure \<Rightarrow> nat \<Rightarrow> client \<Rightarrow> client" where
  "resume_onopen cl ws st =
     (case cl_user cl of
        None \<Rightarrow> st
      | Some u \<Rightarrow>
          st\<lparr> sent := sent st @ [(ws, Auth (user_id u)), (ws, SessionJoin (cl_sessionId cl))] \<rparr>)"

fun resume_onmessage :: "closure \<Rightarrow> server_message \<Rightarrow> int \<Rightarrow> client \<Rightarrow> client" where
  "resume_onmessage cl (MemberLocationUpdate uid lat lng) now st =
     updateMemberMarker cl uid lat lng now st"
| "resume_onmessage cl MemberJoined now st = invalidateQueries st"
| "resume_onmessage cl MemberLeft now st = invalidateQueries st"
| "resume_onmessage cl MemberDisconnected now st = invalidateQueries st"
| "resume_onmessage cl MessageNew now st = invalidateQueries st"
| "resume_onmessage cl PoiCreated now st = invalidateQueries st"
| "resume_onmessage cl PoiDeleted now st = invalidateQueries st"
| "resume_onmessage cl RouteCreated now st = invalidateQueries st"
| "resume_onmessage cl RouteDeleted now st = invalidateQueries st"
| "resume_onmessage cl RouteUpdated now st = invalidateQueries st"
| "resume_onmessage cl SessionEnded now st = st"
| "resume_onmessage cl OtherMessage now st = st"

definition setReady :: "nat \<Rightarrow> readyState \<Rightarrow> client \<Rightarrow> client" where
  "setReady ws r st = st\<lparr> sockets := (sockets st)[ws := (sockets st ! ws)\<lparr> ready := r \<rparr>] \<rparr>"

text \<open>
  The events of a socket, dispatched to the handlers its creator attached. An event of
  a socket that does not exist changes nothing.
\<close>

definition socketOpened :: "nat \<Rightarrow> client \<Rightarrow> client" where
  "socketOpened ws st =
     (if ws < length (sockets st) then
        (case createdBy (sockets st ! ws) of
           ViaConnect \<Rightarrow> connect_onopen (handlers (sockets st ! ws)) ws (setReady ws OPEN st)
         | ViaResume \<Rightarrow> resume_onopen (handlers (sockets st ! ws)) ws (setReady ws OPEN st))
      else st)"

definition socketClosed :: "nat \<Rightarrow> client \<Rightarrow> client" where
  "socketClosed ws st =
     (if ws < length (sockets st) then
        (case createdBy (sockets st ! ws) of
           ViaConnect \<Rightarrow> connect_onclose (handlers (sockets st ! ws)) (setReady ws CLOSED st)
         | ViaResume \<Rightarrow> setReady ws CLOSED st)
      else st)"

definition socketMessage :: "nat \<Rightarrow> server_message \<Rightarrow> int \<Rightarrow> client \<Rightarrow> client" where
  "socketMessage ws msg now st =
     (if ws < length (sockets st) then
        (case createdBy (sockets st ! ws) of
           ViaConnect \<Rightarrow> connect_onmessage (handlers (sockets st ! ws)) msg now st
         | ViaResume \<Rightarrow> resume_onmessage (handlers (sockets st ! ws)) msg now st)
      else st)"

text \<open>Location updates \<open>(lat, lng, now)\<close> of one member arriving on a socket, in order.\<close>

definition receiveLocations ::
    "nat \<Rightarrow> nat \<Rightarrow> (real \<times> real \<times> int) list \<Rightarrow> client \<Rightarrow> client" where
  "receiveLocations ws uid ups st =
     fold (\<lambda>(lat, lng, now). socketMessage ws (MemberLocationUpdate uid lat lng) now) ups st"

text \<open>
  A pending reconnect timer fires: it leaves the timer queue and runs the \<open>connect\<close> of
  the effect that scheduled it.
\<close>

definition timerFired :: "nat \<Rightarrow> client \<Rightarrow> client" where
  "timerFired t st =
     (case map_of (timers st) t of
        None \<Rightarrow> st
      | Some e \<Rightarrow> connect (snd e) (st\<lparr> timers := filter (\<lambda>e. fst e \<noteq> t) (timers st) \<rparr>))"

text \<open>The body of the WebSocket effect, run when the page mounts or its user or session changes.\<close>

definition wsEffect :: "client \<Rightarrow> client" where
  "wsEffect st =
     (if \<not> truthy (sessionId st) \<or> user st = None then st
      else connect (currentClosure st) (st\<lparr> intentionalCloseRef := False \<rparr>))"

text \<open>\<open>ws.close()\<close>\<close>

definition closeSocket :: "nat \<Rightarrow> client \<Rightarrow> client" where
  "closeSocket ws st =
     (if ws < length (sockets st) \<and> ready (sockets st ! ws) \<noteq> CLOSED
      then setReady ws CLOSING st else st)"

text \<open>The cleanup of the WebSocket effect, run when the user leaves the page.\<close>

definition wsCleanup :: "client \<Rightarrow> client" where
  "wsCleanup st =
     (let st1 = st\<lparr> intentionalCloseRef := True \<rparr>;
          st2 = (case reconnectTimeoutRef st1 of
                   Some t \<Rightarrow>
                     st1\<lparr> timers := filter (\<lambda>e. fst e \<noteq> t) (timers st1),
                          reconnectTimeoutRef := None \<rparr>
                 | None \<Rightarrow> st1)
      in (case wsRef st2 of
            Some ws \<Rightarrow> (closeSocket ws st2)\<lparr> wsRef := None \<rparr>
          | None \<Rightarrow> st2))"

section \<open>Location tracking\<close>

text \<open>
  The callback that both \<open>watchPosition\<close> calls register: the fix is sent on the current
  socket when that socket is open. Drawing the own position on the map is not modelled.
\<close>

definition socketOpen :: "client \<Rightarrow> bool" where
  "socketOpen st =
     (case wsRef st of
        None \<Rightarrow> False
      | Some ws \<Rightarrow> ws < length (sockets st) \<and> ready (sockets st ! ws) = OPEN)"

definition onPosition :: "position \<Rightarrow> client \<Rightarrow> client" where
  "onPosition pos st =
     (let st1 = (case wsRef st of
                   Some ws \<Rightarrow>
                     if socketOpen st
                     then st\<lparr> sent := sent st @
                            [(ws, SessionLocation (pos_latitude pos) (pos_longitude pos)
                                    (pos_accuracy pos) (pos_heading pos))] \<rparr>
                     else st
                 | None \<Rightarrow> st)
      in st1\<lparr> userLocationRef := Some (pos_longitude pos, pos_latitude pos) \<rparr>)"

text \<open>\<open>navigator.geolocation.watchPosition\<close> and \<open>clearWatch\<close> on the provider's subscriptions.\<close>

definition watchPosition :: "client \<Rightarrow> client" where
  "watchPosition st =
     st\<lparr> watchIdRef := Some (nextWatchId st),
         watches := watches st @ [nextWatchId st],
         nextWatchId := nextWatchId st + 1 \<rparr>"

definition clearWatch :: "nat \<Rightarrow> client \<Rightarrow> client" where
  "clearWatch w st = st\<lparr> watches := removeAll w (watches st) \<rparr>"

definition locationEffect :: "client \<Rightarrow> client" where
  "locationEffect st =
     (if wsRef st = None \<or> user st = None then st
      else if geolocation st then watchPosition st else st)"

definition locationCleanup :: "client \<Rightarrow> client" where
  "locationCleanup st = (case watchIdRef st of Some w \<Rightarrow> clearWatch w st | None \<Rightarrow> st)"

text \<open>The provider delivers a fix to a subscription that is still registered.\<close>

definition gpsFix :: "nat \<Rightarrow> position \<Rightarrow> client \<Rightarrow> client" where
  "gpsFix w pos st = (if w \<in> set (watches st) then onPosition pos st else st)"

definition handleLiveMapResume :: "client \<Rightarrow> client" where
  "handleLiveMapResume st =
     (let st1 = (if \<not> socketOpen st then newSocket ViaResume (currentClosure st) st else st);
          st2 = (case watchIdRef st1 of Some w \<Rightarrow> clearWatch w st1 | None \<Rightarrow> st1);
          st3 = (if geolocation st2 then watchPosition st2 else st2)
      in invalidateQueries st3)"

text \<open>
  \<open>useBackgroundResilience\<close>: when the page becomes visible again (or the native app
  resumes) the hook calls \<open>onForegroundResume\<close> after a short delay, provided the hook
  is active, that is \<open>!!sessionId && !!user\<close>.
\<close>

definition foregroundResume :: "client \<Rightarrow> client" where
  "foregroundResume st =
     (if truthy (sessionId st) \<and> user st \<noteq> None then handleLiveMapResume st else st)"

section \<open>Saving the paths as routes\<close>

text \<open>
  \<open>Math.sqrt\<close> of a negative number is \<open>NaN\<close>; every operation on \<open>NaN\<close> gives
  \<open>NaN\<close>.
\<close>

definition Math_sqrt :: "number_ops \<Rightarrow> real \<Rightarrow> number" where
  "Math_sqrt ops x = (if x < 0 then NaN else Num (js_sqrt ops x))"

definition addNumber :: "number_ops \<Rightarrow> number \<Rightarrow> number \<Rightarrow> number" where
  "addNumber ops x y =
     (case (x, y) of (Num u, Num v) \<Rightarrow> Num (js_add ops u v) | _ \<Rightarrow> NaN)"

text \<open>The body of the loop of \<open>calculatePathDistance\<close>: the haversine formula for one segment.\<close>

definition haversine :: "number_ops \<Rightarrow> point \<Rightarrow> point \<Rightarrow> number" where
  "haversine ops p1 p2 =
     (let lng1 = fst p1; lat1 = snd p1;
          lng2 = fst p2; lat2 = snd p2;
          R = 6371000;
          dLat = js_div ops (js_mul ops (js_sub ops lat2 lat1) (js_PI ops)) 180;
          dLon = js_div ops (js_mul ops (js_sub ops lng2 lng1) (js_PI ops)) 180;
          a = js_add ops
                (js_mul ops (js_sin ops (js_div ops dLat 2)) (js_sin ops (js_div ops dLat 2)))
                (js_mul ops
                   (js_mul ops
                      (js_mul ops (js_cos ops (js_div ops (js_mul ops lat1 (js_PI ops)) 180))
                                  (js_cos ops (js_div ops (js_mul ops lat2 (js_PI ops)) 180)))
                      (js_sin ops (js_div ops dLon 2)))
                   (js_sin ops (js_div ops dLon 2)))
      in (case (Math_sqrt ops a, Math_sqrt ops (js_sub ops 1 a)) of
            (Num y, Num x) \<Rightarrow> Num (js_mul ops R (js_mul ops 2 (js_atan2 ops y x)))
          | _ \<Rightarrow> NaN))"

text \<open>The loop \<open>for (let i = 1; i < path.length; i++)\<close>, with the running total.\<close>

fun distanceLoop :: "number_ops \<Rightarrow> number \<Rightarrow> point list \<Rightarrow> number" where
  "distanceLoop ops tot (p1 # p2 # rest) =
     distanceLoop ops (addNumber ops tot (haversine ops p1 p2)) (p2 # rest)"
| "distanceLoop ops tot [p] = tot"
| "distanceLoop ops tot [] = tot"

definition calculatePathDistance :: "number_ops \<Rightarrow> point list \<Rightarrow> number" where
  "calculatePathDistance ops path =
     (if length path < 2 then Num 0 else distanceLoop ops (Num 0) path)"

text \<open>
  \<open>String(Math.round(distance))\<close>: \<open>Math.round\<close> gives the nearest integer, the larger
  one of two that are equally near, and is exact on doubles; the text is the decimal
  numeral of that integer (for a distance below ten to the power 21), or \<open>NaN\<close>.
\<close>

datatype rounded = Rounded int | RoundedNaN

definition Math_round :: "number \<Rightarrow> rounded" where
  "Math_round x = (case x of Num r \<Rightarrow> Rounded (round r) | NaN \<Rightarrow> RoundedNaN)"

subsection \<open>Exact arithmetic and the great-circle distance\<close>

text \<open>
  \<open>Math.atan2(y, x)\<close> on real numbers (no signed zero).
\<close>

definition Math_atan2 :: "real \<Rightarrow> real \<Rightarrow> real" where
  "Math_atan2 y x =
     (if 0 < x then arctan (y / x)
      else if x < 0 then (if 0 \<le> y then arctan (y / x) + pi else arctan (y / x) - pi)
      else if 0 < y then pi / 2
      else if y < 0 then - (pi / 2)
      else 0)"

text \<open>The operations without rounding: what the engine's doubles approximate.\<close>

definition exact :: number_ops where
  "exact =
     \<lparr> js_sub = (\<lambda>x y. x - y), js_add = (\<lambda>x y. x + y), js_mul = (\<lambda>x y. x * y),
       js_div = (\<lambda>x y. x / y), js_sin = sin, js_cos = cos, js_sqrt = sqrt,
       js_atan2 = Math_atan2, js_PI = pi \<rparr>"




record latlng =
  c_lat :: real
  c_lng :: real

text \<open>
  The body of \<open>POST /api/routes\<close>. \<open>pathCoordinates\<close> is the list that the source
  serialises with \<open>JSON.stringify\<close>; \<open>totalDistance\<close> is \<open>String(Math.round(distance))\<close>.
\<close>

record route_body =
  route_name :: string
  route_description :: string
  waypointIds :: string
  pathCoordinates :: "latlng list"
  totalDistance :: rounded
  elevationGain :: string
  elevationLoss :: string
  estimatedTime :: nat
  routingMode :: string

datatype api_request =
    PostRoute route_body
  | PostLeave "nat option"
  | DeleteLiveMap "nat option"

text \<open>JavaScript's \<open>a || b\<close> on strings: a missing or empty string is falsy.\<close>

definition orElse :: "string option \<Rightarrow> string \<Rightarrow> string" where
  "orElse a b = (case a of None \<Rightarrow> b | Some s \<Rightarrow> if s = [] then b else s)"

text \<open>\<open>session?.name || 'Live Team Map'\<close>\<close>

definition sessionNameOrDefault :: "SessionData option \<Rightarrow> string" where
  "sessionNameOrDefault sess = orElse (map_option name sess) ''Live Team Map''"

text \<open>\<open>${session?.name}\<close> inside a template string.\<close>

definition sessionNameText :: "SessionData option \<Rightarrow> string" where
  "sessionNameText sess = (case sess of None \<Rightarrow> ''undefined'' | Some s \<Rightarrow> name s)"

text \<open>\<open>today\<close> is the value of \<open>new Date().toLocaleDateString()\<close>.\<close>

definition pathDescription :: "string \<Rightarrow> SessionData option \<Rightarrow> string" where
  "pathDescription today sess =
     ''Path recorded during live map session '' @ [CHR 0x22] @ sessionNameText sess @
     [CHR 0x22] @ '' on '' @ today"

definition recordedRoute ::
    "number_ops \<Rightarrow> string \<Rightarrow> string \<Rightarrow> point list \<Rightarrow> route_body" where
  "recordedRoute ops nm descr path =
     \<lparr> route_name = nm,
       route_description = descr,
       waypointIds = ''[]'',
       pathCoordinates = map (\<lambda>p. \<lparr> c_lat = snd p, c_lng = fst p \<rparr>) path,
       totalDistance = Math_round (calculatePathDistance ops path),
       elevationGain = ''0'',
       elevationLoss = ''0'',
       estimatedTime = 0,
       routingMode = ''recorded'' \<rparr>"

text \<open>\<open>member?.user.fullName || member?.user.username || `User ${userId}`\<close>\<close>

definition memberName :: "SessionData option \<Rightarrow> nat \<Rightarrow> string" where
  "memberName sess uid =
     (let member = (case sess of None \<Rightarrow> None | Some s \<Rightarrow> find (\<lambda>m. userId m = uid) (members s))
      in orElse (Option.bind member (\<lambda>m. fullName (member_user m)))
           (orElse (map_option (\<lambda>m. username (member_user m)) member)
              (''User '' @ string_of_nat uid)))"

definition memberRoute ::
    "number_ops \<Rightarrow> string \<Rightarrow> SessionData option \<Rightarrow> nat \<Rightarrow> point list \<Rightarrow> route_body" where
  "memberRoute ops today sess uid path =
     recordedRoute ops (sessionNameOrDefault sess @ '' - '' @ memberName sess uid @ [CHR 0x27] @ ''s Path'')
       (pathDescription today sess) path"

definition myRoute ::
    "number_ops \<Rightarrow> string \<Rightarrow> SessionData option \<Rightarrow> point list \<Rightarrow> route_body" where
  "myRoute ops today sess path =
     recordedRoute ops (sessionNameOrDefault sess @ '' - My Path'') (pathDescription today sess) path"

text \<open>
  \<open>apiRequest\<close> reaches a server that is not part of the page: \<open>accepts\<close> tells which
  requests it answers with success, and the list of the accepted requests, in order, is
  what the server has persisted. A rejected request throws.

  The loop of \<open>saveSessionPathsAsRoutes\<close> over the entries of \<open>memberPaths\<close>: a path of
  fewer than two points is skipped, a rejected request is caught and logged.
\<close>

fun saveLoop ::
    "(api_request \<Rightarrow> bool) \<Rightarrow> number_ops \<Rightarrow> string \<Rightarrow> SessionData option \<Rightarrow>
     (nat \<times> point list) list \<Rightarrow> nat \<times> api_request list \<Rightarrow> nat \<times> api_request list" where
  "saveLoop accepts ops today sess [] acc = acc"
| "saveLoop accepts ops today sess ((uid, path) # rest) (savedCount, srv) =
     (if length path < 2 then saveLoop accepts ops today sess rest (savedCount, srv)
      else
        (let req = PostRoute (memberRoute ops today sess uid path)
         in if accepts req
            then saveLoop accepts ops today sess rest (savedCount + 1, srv @ [req])
            else saveLoop accepts ops today sess rest (savedCount, srv)))"

definition saveSessionPathsAsRoutes ::
    "(api_request \<Rightarrow> bool) \<Rightarrow> string \<Rightarrow> client \<Rightarrow> api_request list \<Rightarrow> nat \<times> api_request list" where
  "saveSessionPathsAsRoutes accepts today st srv =
     saveLoop accepts (numbers st) today (session st) (memberPaths st) (0, srv)"

text \<open>
  The two mutations. A mutation whose function throws does not reach \<open>onSuccess\<close>;
  \<open>onSuccess\<close> shows a toast and navigates to the home page.
\<close>

definition deleteMutation ::
    "(api_request \<Rightarrow> bool) \<Rightarrow> string \<Rightarrow> client \<times> api_request list \<Rightarrow> client \<times> api_request list" where
  "deleteMutation accepts today cs =
     (let st = fst cs;
          saved = saveSessionPathsAsRoutes accepts today st (snd cs);
          req = DeleteLiveMap (sessionId st)
      in if accepts req
         then (st\<lparr> toasts := toasts st @
                      [\<lparr> title = ''Session ended'',
                         description = ''All paths have been saved as routes'' \<rparr>],
                  location := ''/'' \<rparr>,
               snd saved @ [req])
         else (st, snd saved))"

definition leaveRequest ::
    "(api_request \<Rightarrow> bool) \<Rightarrow> client \<Rightarrow> api_request list \<Rightarrow> client \<times> api_request list" where
  "leaveRequest accepts st srv =
     (let req = PostLeave (sessionId st)
      in if accepts req
         then (st\<lparr> toasts := toasts st @
                      [\<lparr> title = ''Left session'',
                         description = ''Your path has been saved as a route'' \<rparr>],
                  location := ''/'' \<rparr>,
               srv @ [req])
         else (st, srv))"

definition leaveMutation ::
    "(api_request \<Rightarrow> bool) \<Rightarrow> string \<Rightarrow> client \<times> api_request list \<Rightarrow> client \<times> api_request list" where
  "leaveMutation accepts today cs =
     (let st = fst cs; srv = snd cs;
          myPath = map_of (memberPaths st) (case user st of None \<Rightarrow> 0 | Some u \<Rightarrow> user_id u)
      in (case myPath of
            None \<Rightarrow> leaveRequest accepts st srv
          | Some path \<Rightarrow>
              if length path \<ge> 2 then
                (let req = PostRoute (myRoute (numbers st) today (session st) path)
                 in if accepts req then leaveRequest accepts st (srv @ [req]) else (st, srv))
              else leaveRequest accepts st srv))"

text \<open>The routes among the persisted requests.\<close>

fun routesOf :: "api_request list \<Rightarrow> route_body list" where
  "routesOf [] = []"
| "routesOf (PostRoute r # rest) = r # routesOf rest"
| "routesOf (_ # rest) = routesOf rest"

section \<open>What the page shows of an ended session\<close>

definition isOwner :: "client \<Rightarrow> bool" where
  "isOwner st =
     (case (session st, user st) of
        (Some s, Some u) \<Rightarrow> ownerId s = user_id u
      | _ \<Rightarrow> False)"

definition isSessionEnded :: "client \<Rightarrow> bool" where
  "isSessionEnded st = (case session st of None \<Rightarrow> False | Some s \<Rightarrow> \<not> isActive s)"

text \<open>
  \<open>useRoute("/live-map/:id")\<close>: the location is the page of some session. The router
  compares without regard to the case of the letters and allows one slash after the
  parameter, which is any text that is not empty and holds no slash.
\<close>

definition lowerCase :: "char \<Rightarrow> char" where
  "lowerCase c =
     (case map_of (zip ''ABCDEFGHIJKLMNOPQRSTUVWXYZ'' ''abcdefghijklmnopqrstuvwxyz'') c of
        Some l \<Rightarrow> l
      | None \<Rightarrow> c)"

definition matchRoute :: "client \<Rightarrow> bool" where
  "matchRoute st =
     (let rest = drop 10 (location st);
          param = (if rest \<noteq> [] \<and> last rest = CHR ''/'' then butlast rest else rest)
      in map lowerCase (take 10 (location st)) = ''/live-map/'' \<and> param \<noteq> [] \<and>
         CHR ''/'' \<notin> set param)"

datatype header_action = BackToMap | EndSession | Leave

text \<open>
  The state cells that decide which panels of the page are open: the state of the
  session query (\<open>isLoading\<close>, \<open>error\<close>), the drawing mode with the number of points
  drawn, the shared route that is selected (\<open>selectedSharedRoute.createdBy\<close>), its edit
  mode, and the routes panel.
\<close>

record ui_state =
  isLoading :: bool
  queryError :: bool
  isDrawingRoute :: bool
  drawRoutePoints :: nat
  selectedSharedRoute :: "nat option"
  isEditingSharedRoute :: bool
  showRoutes :: bool

text \<open>
  The rendered page, as far as the session's end and the controls that add, change or
  remove routes and waypoints are concerned. A field of a control tells whether the
  control is on the page and enabled:
  \<^item> the banner, the \<open>(Ended)\<close> suffix of the title, the button that copies the share
    code and the action button of the header;
  \<^item> the toolbar buttons \<open>Waypoint\<close> and \<open>Route\<close>;
  \<^item> \<open>Save\<close> and \<open>Import Saved\<close> of the banner of the drawing mode;
  \<^item> \<open>Edit\<close> and the delete button of the detail panel of a selected route;
  \<^item> \<open>Draw New Route\<close> and \<open>Import Saved\<close> of the routes panel.

  Only the header and the buttons of the routes panel read \<open>isSessionEnded\<close>. The chat
  input, the waypoint dialogs and the invitations are not modelled; they do not read it
  either. Nor is it modelled that a button is disabled while its own request is pending.
\<close>

record view =
  endedBanner :: bool
  endedSuffix :: bool
  copyShareCode :: bool
  headerAction :: header_action
  toolbarAddWaypoint :: bool
  toolbarDrawRoute :: bool
  drawingSave :: bool
  drawingImportSaved :: bool
  routeDetailEdit :: bool
  routeDetailDelete :: bool
  panelDrawNewRoute :: bool
  panelImportSaved :: bool

text \<open>
  The page renders nothing when the route does not match, a text while the session is
  loading, and a failure card when the query failed or gave no session.
\<close>

datatype screen = Blank | LoadingText | FailureCard | SessionPage view

text \<open>\<open>route.createdBy === user?.id || isOwner\<close>\<close>

definition canManage :: "client \<Rightarrow> nat \<Rightarrow> bool" where
  "canManage st creator = (Some creator = map_option user_id (user st) \<or> isOwner st)"

definition render :: "ui_state \<Rightarrow> client \<Rightarrow> screen" where
  "render ui st =
     (if \<not> matchRoute st then Blank
      else if isLoading ui then LoadingText
      else if queryError ui \<or> session st = None then FailureCard
      else SessionPage
             \<lparr> endedBanner = isSessionEnded st,
               endedSuffix = isSessionEnded st,
               copyShareCode = (\<not> isSessionEnded st),
               headerAction = (if isSessionEnded st then BackToMap
                               else if isOwner st then EndSession else Leave),
               toolbarAddWaypoint = True,
               toolbarDrawRoute = True,
               drawingSave = (isDrawingRoute ui \<and> drawRoutePoints ui \<ge> 2),
               drawingImportSaved = isDrawingRoute ui,
               routeDetailEdit =
                 (case selectedSharedRoute ui of
                    None \<Rightarrow> False
                  | Some creator \<Rightarrow> \<not> isEditingSharedRoute ui \<and> canManage st creator),
               routeDetailDelete =
                 (case selectedSharedRoute ui of
                    None \<Rightarrow> False
                  | Some creator \<Rightarrow> \<not> isEditingSharedRoute ui \<and> canManage st creator),
               panelDrawNewRoute = (showRoutes ui \<and> \<not> isSessionEnded st),
               panelImportSaved = (showRoutes ui \<and> \<not> isSessionEnded st) \<rparr>)"

text \<open>
  The button of the routes panel that removes a shared route from the team map, for a
  route of the list; \<open>creator\<close> is \<open>route.createdBy\<close>.
\<close>

definition removeRouteButton :: "ui_state \<Rightarrow> client \<Rightarrow> nat \<Rightarrow> bool" where
  "removeRouteButton ui st creator =
     (showRoutes ui \<and> canManage st creator \<and> \<not> isSessionEnded st)"

section \<open>The page as a transition system\<close>

text \<open>
  Everything that can happen to a mounted page, as far as it is modelled: the events of
  the sockets and timers, the fixes of the location provider, the return to the
  foreground, the periodic sweep, the effects and their cleanups, a fresh copy of the
  session from the server, the map being created and removed, and the two buttons that
  leave or end the session. \<open>RouteChanged\<close> is a navigation that keeps the component
  mounted: the router gives it a new location and a new \<open>:id\<close>.
\<close>

datatype event =
    SocketOpened nat
  | SocketClosed nat
  | SocketMessage nat server_message int
  | TimerFired nat
  | GpsFix nat position
  | ForegroundResume
  | SignalCheck int
  | SeedMarkers int
  | SessionFetched "SessionData option"
  | RouteChanged string "nat option"
  | MapCreated
  | MapRemoved
  | WsEffect
  | WsCleanup
  | LocationEffect
  | LocationCleanup
  | ClickEndSession
  | ClickLeave

fun step ::
    "(api_request \<Rightarrow> bool) \<Rightarrow> string \<Rightarrow> event \<Rightarrow> client \<times> api_request list \<Rightarrow>
     client \<times> api_request list" where
  "step accepts today (SocketOpened ws) (st, srv) = (socketOpened ws st, srv)"
| "step accepts today (SocketClosed ws) (st, srv) = (socketClosed ws st, srv)"
| "step accepts today (SocketMessage ws msg now) (st, srv) = (socketMessage ws msg now st, srv)"
| "step accepts today (TimerFired t) (st, srv) = (timerFired t st, srv)"
| "step accepts today (GpsFix w pos) (st, srv) = (gpsFix w pos st, srv)"
| "step accepts today ForegroundResume (st, srv) = (foregroundResume st, srv)"
| "step accepts today (SignalCheck now) (st, srv) = (checkSignalLost now st, srv)"
| "step accepts today (SeedMarkers now) (st, srv) = (seedMemberMarkers now st, srv)"
| "step accepts today (SessionFetched s) (st, srv) = (st\<lparr> session := s \<rparr>, srv)"
| "step accepts today (RouteChanged loc sid) (st, srv) =
     (st\<lparr> location := loc, sessionId := sid \<rparr>, srv)"
| "step accepts today MapCreated (st, srv) =
     (if session st = None then st else st\<lparr> mapCurrent := True \<rparr>, srv)"
| "step accepts today MapRemoved (st, srv) =
     (if mapCurrent st then st\<lparr> mapCurrent := False, memberMarkersRef := [] \<rparr> else st, srv)"
| "step accepts today WsEffect (st, srv) = (wsEffect st, srv)"
| "step accepts today WsCleanup (st, srv) = (wsCleanup st, srv)"
| "step accepts today LocationEffect (st, srv) = (locationEffect st, srv)"
| "step accepts today LocationCleanup (st, srv) = (locationCleanup st, srv)"
| "step accepts today ClickEndSession (st, srv) = deleteMutation accepts today (st, srv)"
| "step accepts today ClickLeave (st, srv) = leaveMutation accepts today (st, srv)"

definition run ::
    "(api_request \<Rightarrow> bool) \<Rightarrow> string \<Rightarrow> event list \<Rightarrow> client \<times> api_request list \<Rightarrow>
     client \<times> api_request list" where
  "run accepts today evs cs = fold (step accepts today) evs cs"

section \<open>A page at its first render, and sample data\<close>

text \<open>The initial values of the state cells and refs of the component.\<close>

definition initialClient ::
    "number_ops \<Rightarrow> auth_user option \<Rightarrow> nat option \<Rightarrow> string \<Rightarrow> client" where
  "initialClient ops u sid loc =
     \<lparr> numbers = ops,
       user = u,
       sessionId = sid,
       session = None,
       mapCurrent = False,
       memberPaths = [],
       memberLastUpdateRef = [],
       memberMarkersRef = [],
       userLocationRef = None,
       sockets = [],
       wsRef = None,
       sent = [],
       reconnectAttemptRef = 0,
       intentionalCloseRef = False,
       reconnectTimeoutRef = None,
       timers = [],
       nextTimerId = 1,
       geolocation = True,
       watchIdRef = None,
       watches = [],
       nextWatchId = 1,
       location = loc,
       toasts = [],
       invalidations = 0 \<rparr>"

definition ann :: auth_user where
  "ann = \<lparr> user_id = 1, username = ''ann'', fullName = Some ''Ann Lee'' \<rparr>"

definition bob :: auth_user where
  "bob = \<lparr> user_id = 2, username = ''bob'', fullName = None \<rparr>"

definition ridgeSession :: SessionData where
  "ridgeSession =
     \<lparr> session_id = 7, ownerId = 1, name = ''Ridge'', shareCode = ''RDG7'', isActive = True,
       members =
         [\<lparr> userId = 1, member_user = ann, latitude = None, longitude = None, lastActive = None \<rparr>,
          \<lparr> userId = 2, member_user = bob, latitude = None, longitude = None, lastActive = None \<rparr>] \<rparr>"

text \<open>
  Ann's page of the session, with the session loaded and the map created. The sample
  pages compute without rounding; on the coordinates used with them the threshold test
  gives the same verdicts in doubles.
\<close>

definition annPage :: client where
  "annPage =
     (initialClient exact (Some ann) (Some 7) ''/live-map/7'')
       \<lparr> session := Some ridgeSession, mapCurrent := True \<rparr>"

text \<open>The same page after its WebSocket effect has run and the socket has opened.\<close>

definition annLive :: client where
  "annLive = socketOpened 0 (wsEffect annPage)"

text \<open>
  Ann's page when its WebSocket effect has run at the first render, before the session
  is loaded and the map created, and the socket has opened.
\<close>

definition annEarly :: client where
  "annEarly = socketOpened 0 (wsEffect (initialClient exact (Some ann) (Some 7) ''/live-map/7''))"

text \<open>
  Ann's connected page after the connection was lost and the page, back in the
  foreground, has made a socket of its own.
\<close>

definition annResumed :: client where
  "annResumed = foregroundResume (socketClosed 0 annLive)"

text \<open>
  Ann's connected page after she has followed a link to session 8: the page stays
  mounted and gets the new location and \<open>:id\<close>.
\<close>

definition annMoved :: client where
  "annMoved = annLive\<lparr> location := ''/live-map/8'', sessionId := Some 8 \<rparr>"

text \<open>Ann's page after the first location update of Bob, received at time 1000.\<close>

definition bobSeen :: client where
  "bobSeen = socketMessage 0 (MemberLocationUpdate 2 10 10) 1000 annLive"

text \<open>
  Ann's page after one sample of her own position and two samples of Bob's; Bob's page
  after the same two samples of his position.
\<close>

definition annTracked :: client where
  "annTracked =
     feedLocations (currentClosure annLive) 2 [(10, 10, 1000), (10.01, 10.01, 2000)]
       (feedLocations (currentClosure annLive) 1 [(10, 10, 500)] annLive)"

definition bobPage :: client where
  "bobPage =
     (initialClient exact (Some bob) (Some 7) ''/live-map/7'')
       \<lparr> session := Some ridgeSession, mapCurrent := True \<rparr>"

definition bobTracked :: client where
  "bobTracked =
     feedLocations (currentClosure bobPage) 2 [(10, 10, 1000), (10.01, 10.01, 2000)] bobPage"

text \<open>A server that stores routes but fails to end the session.\<close>

definition refusesDelete :: "api_request \<Rightarrow> bool" where
  "refusesDelete r = (case r of DeleteLiveMap _ \<Rightarrow> False | _ \<Rightarrow> True)"


definition acceptsAll :: "api_request \<Rightarrow> bool" where
  "acceptsAll r = True"

text \<open>Ann's page of the same session once it has been loaded as ended.\<close>

definition annArchive :: client where
  "annArchive = annLive\<lparr> session := Some (ridgeSession\<lparr> isActive := False \<rparr>) \<rparr>"

text \<open>The session query has settled and no panel is open; the routes panel is open.\<close>

definition noPanel :: ui_state where
  "noPanel =
     \<lparr> isLoading = False, queryError = False, isDrawingRoute = False, drawRoutePoints = 0,
       selectedSharedRoute = None, isEditingSharedRoute = False, showRoutes = False \<rparr>"

definition routesPanel :: ui_state where
  "routesPanel = noPanel\<lparr> showRoutes := True \<rparr>"

text \<open>Ann's connected page after the location effect has subscribed to the provider.\<close>

definition annWatching :: client where
  "annWatching = locationEffect annLive"

definition fixAtRidge :: position where
  "fixAtRidge =
     \<lparr> pos_latitude = 43.5, pos_longitude = -110.8, pos_accuracy = 12, pos_heading = None \<rparr>"

section \<open>Properties of the path history\<close>

lemma pathOf_update_same: "pathOf (AList.update uid p paths) uid = p"
  by (simp add: pathOf_def update_conv')

lemma pathOf_update_other: "v \<noteq> uid \<Longrightarrow> pathOf (AList.update uid p paths) v = pathOf paths v"
  by (simp add: pathOf_def update_conv')

lemma addToPathHistory_empty:
  "pathOf prev uid = [] \<Longrightarrow> pathOf (addToPathHistory ops uid lat lng prev) uid = [(lng, lat)]"
  by (simp add: addToPathHistory_def pathOf_update_same)

lemma displacement_exceeds:
  "displacement ops p q > t \<longleftrightarrow>
     \<bar>js_sub ops (fst p) (fst q)\<bar> > t \<or> \<bar>js_sub ops (snd p) (snd q)\<bar> > t"
  by (simp add: displacement_def less_max_iff_disj)

lemma addToPathHistory_nonempty_raw:
  "pathOf prev uid \<noteq> [] \<Longrightarrow>
   pathOf (addToPathHistory ops uid lat lng prev) uid =
     (if \<bar>js_sub ops (fst (last (pathOf prev uid))) lng\<bar> > MIN_DISPLACEMENT \<or>
         \<bar>js_sub ops (snd (last (pathOf prev uid))) lat\<bar> > MIN_DISPLACEMENT
      then pathOf prev uid @ [(lng, lat)] else pathOf prev uid)"
proof -
  assume ne: "pathOf prev uid \<noteq> []"
  then obtain x xs where c: "pathOf prev uid = x # xs"
    by (cases "pathOf prev uid") auto
  show ?thesis
    unfolding addToPathHistory_def Let_def
    by (simp add: c pathOf_update_same del: last.simps)
qed

lemma addToPathHistory_nonempty:
  "pathOf prev uid \<noteq> [] \<Longrightarrow>
   pathOf (addToPathHistory ops uid lat lng prev) uid =
     (if displacement ops (last (pathOf prev uid)) (lng, lat) > MIN_DISPLACEMENT
      then pathOf prev uid @ [(lng, lat)] else pathOf prev uid)"
  unfolding displacement_exceeds
  using addToPathHistory_nonempty_raw [of prev uid ops lat lng] by simp

lemma addToPathHistory_other:
  "v \<noteq> uid \<Longrightarrow> pathOf (addToPathHistory ops uid lat lng prev) v = pathOf prev v"
  by (simp add: addToPathHistory_def pathOf_update_other Let_def)

lemma addToPathHistory_cases:
  "pathOf (addToPathHistory ops uid lat lng prev) v = pathOf prev v \<or>
   pathOf (addToPathHistory ops uid lat lng prev) v = pathOf prev v @ [(lng, lat)]"
proof (cases "v = uid")
  case False
  then show ?thesis by (simp add: addToPathHistory_other)
next
  case True
  show ?thesis
  proof (cases "pathOf prev uid = []")
    case True
    with \<open>v = uid\<close> show ?thesis by (simp add: addToPathHistory_empty)
  next
    case False
    with \<open>v = uid\<close> show ?thesis by (simp add: addToPathHistory_nonempty)
  qed
qed

lemma memberPaths_updateMemberMarker:
  "memberPaths (updateMemberMarker cl uid lat lng now st) =
     (if \<not> mapCurrent st \<or> cl_session cl = None then memberPaths st
      else addToPathHistory (numbers st) uid lat lng (memberPaths st))"
  by (simp add: updateMemberMarker_def Let_def split: option.splits)

lemma guard_updateMemberMarker:
  "mapCurrent (updateMemberMarker cl uid lat lng now st) = mapCurrent st"
  by (simp add: updateMemberMarker_def Let_def split: option.splits)

lemma numbers_updateMemberMarker:
  "numbers (updateMemberMarker cl uid lat lng now st) = numbers st"
  by (simp add: updateMemberMarker_def Let_def split: option.splits)

lemma sockets_updateMemberMarker:
  "sockets (updateMemberMarker cl uid lat lng now st) = sockets st"
  by (simp add: updateMemberMarker_def Let_def split: option.splits)

lemma updateMemberMarker_dropped:
  "\<not> mapCurrent st \<or> cl_session cl = None \<Longrightarrow> updateMemberMarker cl uid lat lng now st = st"
  by (simp add: updateMemberMarker_def)

lemma memberPath_updateMemberMarker_empty:
  "mapCurrent st \<Longrightarrow> cl_session cl \<noteq> None \<Longrightarrow> memberPath st uid = [] \<Longrightarrow>
   memberPath (updateMemberMarker cl uid lat lng now st) uid = [(lng, lat)]"
  by (auto simp add: memberPath_def memberPaths_updateMemberMarker addToPathHistory_empty)

lemma memberPath_updateMemberMarker_nonempty:
  "mapCurrent st \<Longrightarrow> cl_session cl \<noteq> None \<Longrightarrow> memberPath st uid \<noteq> [] \<Longrightarrow>
   memberPath (updateMemberMarker cl uid lat lng now st) uid =
     (if displacement (numbers st) (last (memberPath st uid)) (lng, lat) > MIN_DISPLACEMENT
      then memberPath st uid @ [(lng, lat)] else memberPath st uid)"
  by (auto simp add: memberPath_def memberPaths_updateMemberMarker addToPathHistory_nonempty)

text \<open>
  A location update that arrives on a socket runs \<open>updateMemberMarker\<close> with the closure of
  the socket's handlers, whichever code created the socket.
\<close>

lemma socketMessage_location:
  "ws < length (sockets st) \<Longrightarrow>
   socketMessage ws (MemberLocationUpdate uid lat lng) now st =
     updateMemberMarker (handlers (sockets st ! ws)) uid lat lng now st"
  by (simp add: socketMessage_def split: origin.splits)

lemma memberPath_updateMemberMarker_cases:
  "memberPath (updateMemberMarker cl uid lat lng now st) v = memberPath st v \<or>
   memberPath (updateMemberMarker cl uid lat lng now st) v = memberPath st v @ [(lng, lat)]"
  using addToPathHistory_cases [of "numbers st" uid lat lng "memberPaths st" v]
  by (simp add: memberPath_def memberPaths_updateMemberMarker)

lemma prefix_updateMemberMarker:
  "prefix (memberPath st v) (memberPath (updateMemberMarker cl uid lat lng now st) v)"
  using memberPath_updateMemberMarker_cases [of cl uid lat lng now st v] by auto

lemma feed_within_threshold:
  "mapCurrent st \<Longrightarrow> cl_session cl \<noteq> None \<Longrightarrow> memberPath st uid = [p] \<Longrightarrow>
   (\<forall>u \<in> set ups. displacement (numbers st) p (fst (snd u), fst u) \<le> MIN_DISPLACEMENT) \<Longrightarrow>
   memberPath (feedLocations cl uid ups st) uid = [p]"
proof (induction ups arbitrary: st)
  case Nil
  then show ?case by (simp add: feedLocations_def)
next
  case (Cons u ups)
  obtain la lo t where u: "u = (la, lo, t)" by (cases u) auto
  let ?st = "updateMemberMarker cl uid la lo t st"
  have near: "\<not> displacement (numbers st) p (lo, la) > MIN_DISPLACEMENT"
    using Cons.prems(4) u by auto
  have a: "mapCurrent ?st" and b: "cl_session cl \<noteq> None"
    using Cons.prems(1,2) by (simp_all add: guard_updateMemberMarker)
  have c: "memberPath ?st uid = [p]"
    using Cons.prems(1-3) near by (simp add: memberPath_updateMemberMarker_nonempty)
  have d: "\<forall>u \<in> set ups. displacement (numbers ?st) p (fst (snd u), fst u) \<le> MIN_DISPLACEMENT"
    using Cons.prems(4) by (simp add: numbers_updateMemberMarker)
  have "memberPath (feedLocations cl uid ups ?st) uid = [p]"
    by (rule Cons.IH [OF a b c d])
  then show ?case by (simp add: feedLocations_def u)
qed

section \<open>Which handlers touch the path history\<close>

lemma memberPaths_setReady [simp]: "memberPaths (setReady ws r st) = memberPaths st"
  by (simp add: setReady_def)

lemma memberPaths_newSocket [simp]: "memberPaths (newSocket orig cl st) = memberPaths st"
  by (simp add: newSocket_def)

lemma memberPaths_connect [simp]: "memberPaths (connect cl st) = memberPaths st"
  by (simp add: connect_def)

lemma memberPaths_invalidateQueries [simp]: "memberPaths (invalidateQueries st) = memberPaths st"
  by (simp add: invalidateQueries_def)

lemma memberPaths_connect_onopen [simp]: "memberPaths (connect_onopen cl ws st) = memberPaths st"
  by (simp add: connect_onopen_def Let_def split: option.splits)

lemma memberPaths_resume_onopen [simp]: "memberPaths (resume_onopen cl ws st) = memberPaths st"
  by (simp add: resume_onopen_def split: option.splits)

lemma memberPaths_connect_onclose [simp]: "memberPaths (connect_onclose cl st) = memberPaths st"
  by (simp add: connect_onclose_def Let_def)

lemma memberPaths_socketOpened [simp]: "memberPaths (socketOpened ws st) = memberPaths st"
  by (simp add: socketOpened_def split: origin.splits)

lemma memberPaths_socketClosed [simp]: "memberPaths (socketClosed ws st) = memberPaths st"
  by (simp add: socketClosed_def split: origin.splits)

lemma memberPaths_timerFired [simp]: "memberPaths (timerFired t st) = memberPaths st"
  by (simp add: timerFired_def split: option.splits)

lemma memberPaths_onPosition [simp]: "memberPaths (onPosition pos st) = memberPaths st"
  by (simp add: onPosition_def Let_def split: option.splits)

lemma memberPaths_gpsFix [simp]: "memberPaths (gpsFix w pos st) = memberPaths st"
  by (simp add: gpsFix_def)

lemma memberPaths_clearWatch [simp]: "memberPaths (clearWatch w st) = memberPaths st"
  by (simp add: clearWatch_def)

lemma memberPaths_watchPosition [simp]: "memberPaths (watchPosition st) = memberPaths st"
  by (simp add: watchPosition_def)

lemma memberPaths_handleLiveMapResume [simp]:
  "memberPaths (handleLiveMapResume st) = memberPaths st"
  by (simp add: handleLiveMapResume_def Let_def split: option.splits)

lemma memberPaths_foregroundResume [simp]: "memberPaths (foregroundResume st) = memberPaths st"
  by (simp add: foregroundResume_def)

lemma memberPaths_checkSignalLost [simp]: "memberPaths (checkSignalLost now st) = memberPaths st"
  by (simp add: checkSignalLost_def)

lemma memberPaths_wsEffect [simp]: "memberPaths (wsEffect st) = memberPaths st"
  by (simp add: wsEffect_def)

lemma memberPaths_closeSocket [simp]: "memberPaths (closeSocket ws st) = memberPaths st"
  by (simp add: closeSocket_def)

lemma memberPaths_wsCleanup [simp]: "memberPaths (wsCleanup st) = memberPaths st"
  by (simp add: wsCleanup_def Let_def split: option.splits)

lemma memberPaths_locationEffect [simp]: "memberPaths (locationEffect st) = memberPaths st"
  by (simp add: locationEffect_def)

lemma memberPaths_locationCleanup [simp]: "memberPaths (locationCleanup st) = memberPaths st"
  by (simp add: locationCleanup_def split: option.splits)

lemma memberPaths_leaveRequest [simp]:
  "memberPaths (fst (leaveRequest accepts st srv)) = memberPaths st"
  by (simp add: leaveRequest_def Let_def)

lemma memberPaths_leaveMutation [simp]:
  "memberPaths (fst (leaveMutation accepts today cs)) = memberPaths (fst cs)"
  by (simp add: leaveMutation_def Let_def split: option.splits)

lemma memberPaths_deleteMutation [simp]:
  "memberPaths (fst (deleteMutation accepts today cs)) = memberPaths (fst cs)"
  by (simp add: deleteMutation_def Let_def)

lemma prefix_same_paths:
  "memberPaths st' = memberPaths st \<Longrightarrow> prefix (memberPath st v) (memberPath st' v)"
  by (simp add: memberPath_def)

lemma prefix_connect_onmessage:
  "prefix (memberPath st v) (memberPath (connect_onmessage cl msg now st) v)"
  by (cases msg) (simp_all add: prefix_updateMemberMarker prefix_same_paths)

lemma prefix_resume_onmessage:
  "prefix (memberPath st v) (memberPath (resume_onmessage cl msg now st) v)"
  by (cases msg) (simp_all add: prefix_updateMemberMarker prefix_same_paths)

lemma prefix_socketMessage:
  "prefix (memberPath st v) (memberPath (socketMessage ws msg now st) v)"
  by (simp add: socketMessage_def prefix_connect_onmessage prefix_resume_onmessage
        split: origin.splits)

lemma prefix_seedMember:
  "prefix (memberPath st v) (memberPath (seedMember now member st) v)"
proof -
  have "prefix (memberPath st v) (memberPath (updateMemberMarker c u la lo now st) v)" for c u la lo
    by (rule prefix_updateMemberMarker)
  moreover have "memberPath (st'\<lparr> memberLastUpdateRef := r \<rparr>) v = memberPath st' v" for st' r
    by (simp add: memberPath_def)
  ultimately show ?thesis
    by (simp add: seedMember_def Let_def split: option.splits)
qed

lemma prefix_fold_seedMember:
  "prefix (memberPath st v) (memberPath (fold (seedMember now) ms st) v)"
proof (induction ms arbitrary: st)
  case Nil
  then show ?case by simp
next
  case (Cons m ms)
  have "prefix (memberPath st v) (memberPath (seedMember now m st) v)"
    by (rule prefix_seedMember)
  also have "prefix \<dots> (memberPath (fold (seedMember now) ms (seedMember now m st)) v)"
    by (rule Cons.IH)
  finally show ?case by simp
qed

lemma prefix_seedMemberMarkers:
  "prefix (memberPath st v) (memberPath (seedMemberMarkers now st) v)"
  by (simp add: seedMemberMarkers_def prefix_fold_seedMember split: option.splits)

lemma prefix_step:
  "prefix (memberPath (fst cs) v) (memberPath (fst (step accepts today ev cs)) v)"
proof -
  obtain st srv where cs: "cs = (st, srv)" by (cases cs)
  show ?thesis
    unfolding cs
    by (cases ev)
       (simp_all add: prefix_socketMessage prefix_seedMemberMarkers prefix_same_paths)
qed

lemma prefix_run:
  "prefix (memberPath (fst cs) v) (memberPath (fst (run accepts today evs cs)) v)"
proof (induction evs arbitrary: cs)
  case Nil
  then show ?case by (simp add: run_def)
next
  case (Cons ev evs)
  have "prefix (memberPath (fst cs) v) (memberPath (fst (step accepts today ev cs)) v)"
    by (rule prefix_step)
  also have "prefix \<dots> (memberPath (fst (run accepts today evs (step accepts today ev cs))) v)"
    by (rule Cons.IH)
  finally show ?case by (simp add: run_def)
qed


section \<open>The engine of a page\<close>

text \<open>No handler replaces the number operations: a page computes with one engine.\<close>

lemma numbers_socketMessage: "numbers (socketMessage ws msg now st) = numbers st"
  by (cases msg)
     (simp_all add: socketMessage_def invalidateQueries_def numbers_updateMemberMarker
        split: origin.splits)

lemma numbers_seedMember: "numbers (seedMember now member st) = numbers st"
  by (simp add: seedMember_def numbers_updateMemberMarker Let_def split: option.splits)

lemma numbers_seedMemberMarkers: "numbers (seedMemberMarkers now st) = numbers st"
proof -
  have "numbers (fold (seedMember now) ms s) = numbers s" for ms s
    by (induction ms arbitrary: s) (simp_all add: numbers_seedMember)
  then show ?thesis
    by (simp add: seedMemberMarkers_def split: option.splits)
qed

lemma numbers_step: "numbers (fst (step accepts today ev cs)) = numbers (fst cs)"
proof -
  obtain st srv where cs: "cs = (st, srv)" by (cases cs)
  show ?thesis
    unfolding cs
    by (cases ev)
       (simp_all add: numbers_socketMessage numbers_seedMemberMarkers socketOpened_def
          socketClosed_def connect_onopen_def resume_onopen_def connect_onclose_def
          setReady_def timerFired_def connect_def newSocket_def gpsFix_def onPosition_def
          foregroundResume_def handleLiveMapResume_def clearWatch_def watchPosition_def
          invalidateQueries_def checkSignalLost_def wsEffect_def wsCleanup_def closeSocket_def
          locationEffect_def locationCleanup_def deleteMutation_def leaveMutation_def
          leaveRequest_def Let_def
          split: origin.splits option.splits)
qed

lemma numbers_run: "numbers (fst (run accepts today evs cs)) = numbers (fst cs)"
proof (induction evs arbitrary: cs)
  case Nil
  then show ?case by (simp add: run_def)
next
  case (Cons ev evs)
  have "numbers (fst (run accepts today evs (step accepts today ev cs))) =
        numbers (fst (step accepts today ev cs))"
    by (rule Cons.IH)
  then show ?case by (simp add: run_def numbers_step)
qed
section \<open>Claims about the path history\<close>

lemma annEarly_state:
  "mapCurrent annEarly = False" "session annEarly = None" "memberPaths annEarly = []"
  "length (sockets annEarly) = 1" "createdBy (sockets annEarly ! 0) = ViaConnect"
  "ready (sockets annEarly ! 0) = OPEN" "cl_session (handlers (sockets annEarly ! 0)) = None"
  "wsRef annEarly = Some 0"
  by (simp_all add: annEarly_def socketOpened_def wsEffect_def initialClient_def
        connect_def newSocket_def truthy_def connect_onopen_def setReady_def ann_def
        currentClosure_def)

lemma annLive_paths:
  "mapCurrent annLive" "memberPaths annLive = []" "numbers annLive = exact"
  "length (sockets annLive) = 1" "cl_session (handlers (sockets annLive ! 0)) = Some ridgeSession"
  by (simp_all add: annLive_def socketOpened_def wsEffect_def annPage_def initialClient_def
        connect_def newSocket_def truthy_def connect_onopen_def setReady_def ann_def
        currentClosure_def)

lemma annResumed_state:
  "mapCurrent annResumed" "memberPaths annResumed = []" "numbers annResumed = exact"
  "length (sockets annResumed) = 2" "createdBy (sockets annResumed ! 1) = ViaResume"
  "cl_session (handlers (sockets annResumed ! 1)) = Some ridgeSession"
  "wsRef annResumed = Some 1"
  by (simp_all add: annResumed_def foregroundResume_def handleLiveMapResume_def socketOpen_def
        socketClosed_def connect_onclose_def invalidateQueries_def watchPosition_def
        annLive_def socketOpened_def wsEffect_def annPage_def initialClient_def
        connect_def newSocket_def truthy_def connect_onopen_def setReady_def ann_def
        currentClosure_def Let_def nth_append)

lemma receiveLocations_within_threshold:
  assumes "ws < length (sockets st)" and "mapCurrent st"
    and "cl_session (handlers (sockets st ! ws)) \<noteq> None" and "memberPath st uid = [p]"
    and "\<forall>u \<in> set ups. displacement (numbers st) p (fst (snd u), fst u) \<le> MIN_DISPLACEMENT"
  shows "memberPath (receiveLocations ws uid ups st) uid = [p]"
  using assms
proof (induction ups arbitrary: st)
  case Nil
  then show ?case by (simp add: receiveLocations_def)
next
  case (Cons u ups)
  obtain la lo t where u: "u = (la, lo, t)" by (cases u) auto
  let ?cl = "handlers (sockets st ! ws)"
  let ?st = "updateMemberMarker ?cl uid la lo t st"
  have m: "socketMessage ws (MemberLocationUpdate uid la lo) t st = ?st"
    using Cons.prems(1) by (rule socketMessage_location)
  have near: "\<not> displacement (numbers st) p (lo, la) > MIN_DISPLACEMENT"
    using Cons.prems(5) u by auto
  have a: "ws < length (sockets ?st)" and b: "mapCurrent ?st"
    and c: "cl_session (handlers (sockets ?st ! ws)) \<noteq> None"
    using Cons.prems(1-3)
    by (simp_all add: guard_updateMemberMarker sockets_updateMemberMarker)
  have d: "memberPath ?st uid = [p]"
    using Cons.prems(2-4) near by (simp add: memberPath_updateMemberMarker_nonempty)
  have e: "\<forall>u \<in> set ups. displacement (numbers ?st) p (fst (snd u), fst u) \<le> MIN_DISPLACEMENT"
    using Cons.prems(5) by (simp add: numbers_updateMemberMarker)
  have "memberPath (receiveLocations ws uid ups ?st) uid = [p]"
    by (rule Cons.IH [OF a b c d e])
  then show ?case by (simp add: receiveLocations_def u m)
qed

text \<open>
  Claim C10 as it stands fails: the first update of a member is not appended
  unconditionally. Ann's page opens its socket at the first render; a location update of
  Bob that arrives before the session is loaded and the map created is dropped by the
  guard of \<open>updateMemberMarker\<close>, and the page stays exactly as it was.
\<close>

theorem first_update_dropped_before_map_exists:
  "ready (sockets annEarly ! 0) = OPEN \<and> memberPath annEarly 2 = [] \<and>
   memberPath (socketMessage 0 (MemberLocationUpdate 2 10 10) 1000 annEarly) 2 = [] \<and>
   socketMessage 0 (MemberLocationUpdate 2 10 10) 1000 annEarly = annEarly"
  by (simp add: socketMessage_def annEarly_state updateMemberMarker_def memberPath_def
        pathOf_def)

text \<open>
  Claim C10, amended. For a member whose accumulated path is empty, the first location
  update that arrives while the map exists, on a socket whose handler was made with the
  session loaded, is appended whatever its coordinates are; this holds for a socket made
  by \<open>connect\<close> and for one made by \<open>handleLiveMapResume\<close>. An update that arrives while
  the map does not exist is dropped. The displacement test is applied only when the path
  has a last point, and then it alone decides.
\<close>

theorem first_update_appended:
  assumes "ws < length (sockets st)"
  shows "(\<not> mapCurrent st \<longrightarrow> socketMessage ws (MemberLocationUpdate uid lat lng) now st = st) \<and>
         (mapCurrent st \<and> cl_session (handlers (sockets st ! ws)) \<noteq> None \<longrightarrow>
            (memberPath st uid = [] \<longrightarrow>
               memberPath (socketMessage ws (MemberLocationUpdate uid lat lng) now st) uid =
                 [(lng, lat)]) \<and>
            (memberPath st uid \<noteq> [] \<longrightarrow>
               memberPath (socketMessage ws (MemberLocationUpdate uid lat lng) now st) uid =
                 (if \<bar>js_sub (numbers st) (fst (last (memberPath st uid))) lng\<bar> > MIN_DISPLACEMENT \<or>
                     \<bar>js_sub (numbers st) (snd (last (memberPath st uid))) lat\<bar> > MIN_DISPLACEMENT
                  then memberPath st uid @ [(lng, lat)] else memberPath st uid)))"
proof -
  let ?cl = "handlers (sockets st ! ws)"
  have m: "socketMessage ws (MemberLocationUpdate uid lat lng) now st =
             updateMemberMarker ?cl uid lat lng now st"
    using assms by (rule socketMessage_location)
  have one: "\<not> mapCurrent st \<longrightarrow> updateMemberMarker ?cl uid lat lng now st = st"
    by (simp add: updateMemberMarker_dropped)
  have two: "memberPath (updateMemberMarker ?cl uid lat lng now st) uid = [(lng, lat)]"
    if "mapCurrent st" "cl_session ?cl \<noteq> None" "memberPath st uid = []"
    using that by (rule memberPath_updateMemberMarker_empty)
  have three: "memberPath (updateMemberMarker ?cl uid lat lng now st) uid =
         (if \<bar>js_sub (numbers st) (fst (last (memberPath st uid))) lng\<bar> > MIN_DISPLACEMENT \<or>
             \<bar>js_sub (numbers st) (snd (last (memberPath st uid))) lat\<bar> > MIN_DISPLACEMENT
          then memberPath st uid @ [(lng, lat)] else memberPath st uid)"
    if "mapCurrent st" "cl_session ?cl \<noteq> None" "memberPath st uid \<noteq> []"
    using memberPath_updateMemberMarker_nonempty [OF that, of lat lng now]
    by (simp add: displacement_exceeds)
  show ?thesis
    unfolding m using one two three by blast
qed

theorem first_update_appended_witness:
  "0 < length (sockets annLive) \<and> mapCurrent annLive \<and>
   cl_session (handlers (sockets annLive ! 0)) \<noteq> None \<and> memberPath annLive 2 = [] \<and>
   memberPath (socketMessage 0 (MemberLocationUpdate 2 10 10) 1000 annLive) 2 = [(10, 10)] \<and>
   memberPath (socketMessage 0 (MemberLocationUpdate 2 0 0) 1000 annLive) 2 = [(0, 0)] \<and>
   1 < length (sockets annResumed) \<and> createdBy (sockets annResumed ! 1) = ViaResume \<and>
   memberPath (socketMessage 1 (MemberLocationUpdate 2 10 10) 1000 annResumed) 2 = [(10, 10)]"
proof -
  have e: "memberPath annLive 2 = []" "memberPath annResumed 2 = []"
    by (simp_all add: memberPath_def pathOf_def annLive_paths annResumed_state)
  have l: "0 < length (sockets annLive)" "1 < length (sockets annResumed)"
    by (simp_all add: annLive_paths annResumed_state)
  show ?thesis
    using e first_update_appended [OF l(1), of 2 10 10 1000]
      first_update_appended [OF l(1), of 2 0 0 1000]
      first_update_appended [OF l(2), of 2 10 10 1000]
    by (simp add: annLive_paths annResumed_state del: One_nat_def)
qed

text \<open>
  Claim C1 as it stands fails for the updates that the guard of \<open>updateMemberMarker\<close>
  drops. On Ann's page that has opened its socket before the session is loaded and the
  map created, two points of Bob within the threshold of each other, and then a third
  one half a degree away, leave his path empty: its length is 0 and not 1.
\<close>

theorem points_dropped_before_map_exists:
  "ready (sockets annEarly ! 0) = OPEN \<and>
   length (memberPath (receiveLocations 0 2
       [(10, 10, 1000), (10.000030517578125, 10, 2000)] annEarly) 2) = 0 \<and>
   memberPath (receiveLocations 0 2
       [(10, 10, 1000), (10.000030517578125, 10, 2000), (10.5, 10.5, 3000)] annEarly) 2 = []"
  by (simp add: receiveLocations_def socketMessage_def annEarly_state updateMemberMarker_def
        memberPath_def pathOf_def)

text \<open>
  Claim C1, amended. For every member and every location update that arrives while the
  map exists, on a socket whose handler was made with the session loaded (a socket of
  \<open>connect\<close> or of \<open>handleLiveMapResume\<close>), the member's path gains the new point if and
  only if the path is empty or the displacement from the last stored point exceeds the
  threshold: the larger of the differences in longitude and in latitude, as the engine
  computes them, is greater than the double nearest to 0.00005 degrees. Otherwise the
  path stays as it is. An update that arrives while the map does not exist changes
  nothing. Feeding a first point and then any number of points that all lie within the
  threshold of the first, all of them while the map exists, yields a path of length 1.
\<close>

theorem path_gains_point_iff_displaced:
  assumes "ws < length (sockets st)"
  shows "\<bar>MIN_DISPLACEMENT - 5 / 100000\<bar> < 1 / 10 ^ 20 \<and>
         (\<not> mapCurrent st \<longrightarrow> socketMessage ws (MemberLocationUpdate uid lat lng) now st = st) \<and>
         (mapCurrent st \<and> cl_session (handlers (sockets st ! ws)) \<noteq> None \<longrightarrow>
            (memberPath (socketMessage ws (MemberLocationUpdate uid lat lng) now st) uid =
                 memberPath st uid @ [(lng, lat)]
               \<longleftrightarrow> memberPath st uid = [] \<or>
                   displacement (numbers st) (last (memberPath st uid)) (lng, lat) > MIN_DISPLACEMENT) \<and>
            (memberPath (socketMessage ws (MemberLocationUpdate uid lat lng) now st) uid =
                 memberPath st uid
               \<longleftrightarrow> memberPath st uid \<noteq> [] \<and>
                   \<not> displacement (numbers st) (last (memberPath st uid)) (lng, lat) > MIN_DISPLACEMENT) \<and>
            (memberPath st uid = [] \<longrightarrow>
               (\<forall>u \<in> set ups. displacement (numbers st) (lng, lat) (fst (snd u), fst u)
                                \<le> MIN_DISPLACEMENT) \<longrightarrow>
               memberPath (receiveLocations ws uid ((lat, lng, now) # ups) st) uid = [(lng, lat)] \<and>
               length (memberPath (receiveLocations ws uid ((lat, lng, now) # ups) st) uid) = 1))"
proof -
  let ?cl = "handlers (sockets st ! ws)"
  let ?st = "updateMemberMarker ?cl uid lat lng now st"
  have m: "socketMessage ws (MemberLocationUpdate uid lat lng) now st = ?st"
    using assms by (rule socketMessage_location)
  have zero: "\<bar>MIN_DISPLACEMENT - 5 / 100000\<bar> < 1 / 10 ^ 20"
    by (simp add: MIN_DISPLACEMENT_def)
  have one: "\<not> mapCurrent st \<longrightarrow> ?st = st"
    by (simp add: updateMemberMarker_dropped)
  have two: "(memberPath ?st uid = memberPath st uid @ [(lng, lat)]
               \<longleftrightarrow> memberPath st uid = [] \<or>
                   displacement (numbers st) (last (memberPath st uid)) (lng, lat) > MIN_DISPLACEMENT) \<and>
            (memberPath ?st uid = memberPath st uid
               \<longleftrightarrow> memberPath st uid \<noteq> [] \<and>
                   \<not> displacement (numbers st) (last (memberPath st uid)) (lng, lat) > MIN_DISPLACEMENT)"
    if g: "mapCurrent st" "cl_session ?cl \<noteq> None"
  proof (cases "memberPath st uid = []")
    case True
    then show ?thesis
      using memberPath_updateMemberMarker_empty [OF g True, of lat lng now] by simp
  next
    case False
    then show ?thesis
      using memberPath_updateMemberMarker_nonempty [OF g False, of lat lng now] by simp
  qed
  have three: "memberPath (receiveLocations ws uid ((lat, lng, now) # ups) st) uid = [(lng, lat)]"
    if g: "mapCurrent st" "cl_session ?cl \<noteq> None" and e: "memberPath st uid = []"
      and near: "\<forall>u \<in> set ups. displacement (numbers st) (lng, lat) (fst (snd u), fst u)
                                \<le> MIN_DISPLACEMENT"
  proof -
    have a: "ws < length (sockets ?st)" and b: "mapCurrent ?st"
      and c: "cl_session (handlers (sockets ?st ! ws)) \<noteq> None"
      using assms g by (simp_all add: guard_updateMemberMarker sockets_updateMemberMarker)
    have d: "memberPath ?st uid = [(lng, lat)]"
      using g e by (rule memberPath_updateMemberMarker_empty)
    have n: "\<forall>u \<in> set ups. displacement (numbers ?st) (lng, lat) (fst (snd u), fst u)
                                \<le> MIN_DISPLACEMENT"
      using near by (simp add: numbers_updateMemberMarker)
    have "memberPath (receiveLocations ws uid ups ?st) uid = [(lng, lat)]"
      by (rule receiveLocations_within_threshold [OF a b c d n])
    then show ?thesis by (simp add: receiveLocations_def m)
  qed
  show ?thesis
    unfolding m using zero one two three by simp
qed

theorem path_gains_point_iff_displaced_witness:
  "0 < length (sockets annLive) \<and> mapCurrent annLive \<and>
   cl_session (handlers (sockets annLive ! 0)) \<noteq> None \<and> memberPath annLive 2 = [] \<and>
   memberPath (receiveLocations 0 2
       [(10, 10, 1000), (10.000030517578125, 9.9999847412109375, 2000),
        (10, 10.000030517578125, 3000)] annLive) 2 =
     [(10, 10)] \<and>
   length (memberPath (receiveLocations 0 2
       [(10, 10, 1000), (10.000030517578125, 9.9999847412109375, 2000),
        (10, 10.000030517578125, 3000)] annLive) 2) = 1"
proof -
  have l: "0 < length (sockets annLive)"
    by (simp add: annLive_paths)
  have e: "memberPath annLive 2 = []"
    by (simp add: memberPath_def pathOf_def annLive_paths)
  have near: "\<forall>u \<in> set [(10.000030517578125, 9.9999847412109375, 2000::int),
                          (10, 10.000030517578125, 3000)].
                displacement (numbers annLive) (10, 10) (fst (snd u), fst u) \<le> MIN_DISPLACEMENT"
    by (simp add: displacement_def MIN_DISPLACEMENT_def annLive_paths exact_def)
  show ?thesis
    using l e near
      path_gains_point_iff_displaced [OF l, where uid = 2 and lat = 10 and lng = 10
        and now = 1000
        and ups = "[(10.000030517578125, 9.9999847412109375, 2000),
                    (10, 10.000030517578125, 3000)]"]
    by (simp add: annLive_paths)
qed

text \<open>
  Claim C9. The accumulated paths only grow. A location update either appends its one
  point to the path of its member or leaves that path unchanged, and it leaves the paths
  of the other members unchanged; every other event of the page (socket and timer
  events, fixes of the own position, the return to the foreground, the signal-lost
  sweep, the effects and cleanups, a newly fetched session, a change of the route, the
  map being created or removed, leaving and ending the session) keeps every stored
  point in its place, so that after any sequence of events the old path is an initial
  segment of the new one.
\<close>

theorem member_paths_only_grow:
  "(memberPath (updateMemberMarker cl v lat lng now st) uid = memberPath st uid \<or>
    memberPath (updateMemberMarker cl v lat lng now st) uid = memberPath st uid @ [(lng, lat)]) \<and>
   (uid \<noteq> v \<longrightarrow> memberPath (updateMemberMarker cl v lat lng now st) uid = memberPath st uid) \<and>
   prefix (memberPath st uid) (memberPath (fst (step accepts today ev (st, srv))) uid) \<and>
   prefix (memberPath st uid) (memberPath (fst (run accepts today evs (st, srv))) uid) \<and>
   length (memberPath st uid) \<le> length (memberPath (fst (run accepts today evs (st, srv))) uid)"
proof -
  have other: "uid \<noteq> v \<longrightarrow> memberPath (updateMemberMarker cl v lat lng now st) uid = memberPath st uid"
    by (simp add: memberPath_def memberPaths_updateMemberMarker addToPathHistory_other)
  have p: "prefix (memberPath st uid) (memberPath (fst (run accepts today evs (st, srv))) uid)"
    using prefix_run [of "(st, srv)" uid accepts today evs] by simp
  have s: "prefix (memberPath st uid) (memberPath (fst (step accepts today ev (st, srv))) uid)"
    using prefix_step [of "(st, srv)" uid accepts today ev] by simp
  from p have "length (memberPath st uid) \<le> length (memberPath (fst (run accepts today evs (st, srv))) uid)"
    by (rule prefix_length_le)
  with other p s memberPath_updateMemberMarker_cases [of cl v lat lng now st uid]
  show ?thesis by blast
qed

theorem member_paths_only_grow_witness:
  "memberPath annLive 2 = [] \<and>
   memberPath (fst (run (\<lambda>r. True) ''3/11/2026''
      [SocketMessage 0 (MemberLocationUpdate 2 10 10) 1000, SignalCheck 5000,
       SocketMessage 0 (MemberLocationUpdate 2 10.00001 10) 6000,
       SocketMessage 0 (MemberLocationUpdate 2 10.01 10.01) 7000] (annLive, []))) 2 =
     [(10, 10), (10.01, 10.01)] \<and>
   prefix (memberPath annLive 2)
     (memberPath (fst (run (\<lambda>r. True) ''3/11/2026''
      [SocketMessage 0 (MemberLocationUpdate 2 10 10) 1000, SignalCheck 5000,
       SocketMessage 0 (MemberLocationUpdate 2 10.00001 10) 6000,
       SocketMessage 0 (MemberLocationUpdate 2 10.01 10.01) 7000] (annLive, []))) 2)"
  using member_paths_only_grow [where st = annLive and uid = 2 and accepts = "\<lambda>r. True"
      and today = "''3/11/2026''" and srv = "[]"
      and evs = "[SocketMessage 0 (MemberLocationUpdate 2 10 10) 1000, SignalCheck 5000,
       SocketMessage 0 (MemberLocationUpdate 2 10.00001 10) 6000,
       SocketMessage 0 (MemberLocationUpdate 2 10.01 10.01) 7000]"]
  by (simp add: run_def annLive_def socketOpened_def wsEffect_def annPage_def initialClient_def
        connect_def newSocket_def truthy_def connect_onopen_def setReady_def ann_def
        currentClosure_def
        socketMessage_def updateMemberMarker_def addToPathHistory_def pathOf_def memberPath_def
        checkSignalLost_def checkSignalLostEntry_def Let_def newMarker_def
        SIGNAL_LOST_THRESHOLD_def exact_def MIN_DISPLACEMENT_def)

section \<open>Reconnection\<close>

lemma conn_setReady [simp]:
  "intentionalCloseRef (setReady ws r st) = intentionalCloseRef st"
  "timers (setReady ws r st) = timers st"
  "reconnectAttemptRef (setReady ws r st) = reconnectAttemptRef st"
  "nextTimerId (setReady ws r st) = nextTimerId st"
  "reconnectTimeoutRef (setReady ws r st) = reconnectTimeoutRef st"
  by (simp_all add: setReady_def)

lemma conn_newSocket [simp]:
  "intentionalCloseRef (newSocket orig cl st) = intentionalCloseRef st"
  "timers (newSocket orig cl st) = timers st"
  by (simp_all add: newSocket_def)

lemma conn_connect [simp]:
  "intentionalCloseRef (connect cl st) = intentionalCloseRef st"
  "timers (connect cl st) = timers st"
  by (simp_all add: connect_def)

lemma conn_invalidateQueries [simp]:
  "intentionalCloseRef (invalidateQueries st) = intentionalCloseRef st"
  "timers (invalidateQueries st) = timers st"
  by (simp_all add: invalidateQueries_def)

lemma conn_connect_onopen [simp]:
  "intentionalCloseRef (connect_onopen cl ws st) = intentionalCloseRef st"
  "timers (connect_onopen cl ws st) = timers st"
  "reconnectAttemptRef (connect_onopen cl ws st) = 0"
  by (simp_all add: connect_onopen_def Let_def split: option.splits)

lemma conn_resume_onopen [simp]:
  "intentionalCloseRef (resume_onopen cl ws st) = intentionalCloseRef st"
  "timers (resume_onopen cl ws st) = timers st"
  by (simp_all add: resume_onopen_def split: option.splits)

lemma conn_updateMemberMarker [simp]:
  "intentionalCloseRef (updateMemberMarker cl uid lat lng now st) = intentionalCloseRef st"
  "timers (updateMemberMarker cl uid lat lng now st) = timers st"
  by (simp_all add: updateMemberMarker_def Let_def split: option.splits)

lemma conn_connect_onmessage [simp]:
  "intentionalCloseRef (connect_onmessage cl msg now st) = intentionalCloseRef st"
  "timers (connect_onmessage cl msg now st) = timers st"
  by (cases msg; simp)+

lemma conn_resume_onmessage [simp]:
  "intentionalCloseRef (resume_onmessage cl msg now st) = intentionalCloseRef st"
  "timers (resume_onmessage cl msg now st) = timers st"
  by (cases msg; simp)+

lemma conn_socketOpened [simp]:
  "intentionalCloseRef (socketOpened ws st) = intentionalCloseRef st"
  "timers (socketOpened ws st) = timers st"
  by (simp_all add: socketOpened_def split: origin.splits)

lemma conn_socketMessage [simp]:
  "intentionalCloseRef (socketMessage ws msg now st) = intentionalCloseRef st"
  "timers (socketMessage ws msg now st) = timers st"
  by (simp_all add: socketMessage_def split: origin.splits)

lemma conn_onPosition [simp]:
  "intentionalCloseRef (onPosition pos st) = intentionalCloseRef st"
  "timers (onPosition pos st) = timers st"
  by (simp_all add: onPosition_def Let_def split: option.splits)

lemma conn_gpsFix [simp]:
  "intentionalCloseRef (gpsFix w pos st) = intentionalCloseRef st"
  "timers (gpsFix w pos st) = timers st"
  by (simp_all add: gpsFix_def)

lemma conn_clearWatch [simp]:
  "intentionalCloseRef (clearWatch w st) = intentionalCloseRef st"
  "timers (clearWatch w st) = timers st"
  by (simp_all add: clearWatch_def)

lemma conn_watchPosition [simp]:
  "intentionalCloseRef (watchPosition st) = intentionalCloseRef st"
  "timers (watchPosition st) = timers st"
  by (simp_all add: watchPosition_def)

lemma conn_handleLiveMapResume [simp]:
  "intentionalCloseRef (handleLiveMapResume st) = intentionalCloseRef st"
  "timers (handleLiveMapResume st) = timers st"
  by (simp_all add: handleLiveMapResume_def Let_def split: option.splits)

lemma conn_foregroundResume [simp]:
  "intentionalCloseRef (foregroundResume st) = intentionalCloseRef st"
  "timers (foregroundResume st) = timers st"
  by (simp_all add: foregroundResume_def)

lemma conn_checkSignalLost [simp]:
  "intentionalCloseRef (checkSignalLost now st) = intentionalCloseRef st"
  "timers (checkSignalLost now st) = timers st"
  by (simp_all add: checkSignalLost_def)

lemma conn_seedMember [simp]:
  "intentionalCloseRef (seedMember now member st) = intentionalCloseRef st"
  "timers (seedMember now member st) = timers st"
  by (simp_all add: seedMember_def Let_def split: option.splits)

lemma conn_fold_seedMember [simp]:
  "intentionalCloseRef (fold (seedMember now) ms st) = intentionalCloseRef st"
  "timers (fold (seedMember now) ms st) = timers st"
  by (induction ms arbitrary: st) simp_all

lemma conn_seedMemberMarkers [simp]:
  "intentionalCloseRef (seedMemberMarkers now st) = intentionalCloseRef st"
  "timers (seedMemberMarkers now st) = timers st"
  by (simp_all add: seedMemberMarkers_def split: option.splits)

lemma conn_closeSocket [simp]:
  "intentionalCloseRef (closeSocket ws st) = intentionalCloseRef st"
  "timers (closeSocket ws st) = timers st"
  "reconnectTimeoutRef (closeSocket ws st) = reconnectTimeoutRef st"
  by (simp_all add: closeSocket_def)

lemma conn_locationEffect [simp]:
  "intentionalCloseRef (locationEffect st) = intentionalCloseRef st"
  "timers (locationEffect st) = timers st"
  by (simp_all add: locationEffect_def)

lemma conn_locationCleanup [simp]:
  "intentionalCloseRef (locationCleanup st) = intentionalCloseRef st"
  "timers (locationCleanup st) = timers st"
  by (simp_all add: locationCleanup_def split: option.splits)

lemma conn_leaveRequest [simp]:
  "intentionalCloseRef (fst (leaveRequest accepts st srv)) = intentionalCloseRef st"
  "timers (fst (leaveRequest accepts st srv)) = timers st"
  by (simp_all add: leaveRequest_def Let_def)

lemma conn_leaveMutation [simp]:
  "intentionalCloseRef (fst (leaveMutation accepts today cs)) = intentionalCloseRef (fst cs)"
  "timers (fst (leaveMutation accepts today cs)) = timers (fst cs)"
  by (simp_all add: leaveMutation_def Let_def split: option.splits)

lemma conn_deleteMutation [simp]:
  "intentionalCloseRef (fst (deleteMutation accepts today cs)) = intentionalCloseRef (fst cs)"
  "timers (fst (deleteMutation accepts today cs)) = timers (fst cs)"
  by (simp_all add: deleteMutation_def Let_def)

lemma connect_onclose_intentional:
  "intentionalCloseRef st \<Longrightarrow> connect_onclose cl st = st"
  by (simp add: connect_onclose_def)

lemma socketClosed_intentional:
  "intentionalCloseRef st \<Longrightarrow>
   intentionalCloseRef (socketClosed ws st) \<and> timers (socketClosed ws st) = timers st \<and>
   reconnectTimeoutRef (socketClosed ws st) = reconnectTimeoutRef st \<and>
   reconnectAttemptRef (socketClosed ws st) = reconnectAttemptRef st \<and>
   nextTimerId (socketClosed ws st) = nextTimerId st"
  by (simp add: socketClosed_def connect_onclose_def split: origin.splits)

lemma timerFired_timers:
  "intentionalCloseRef (timerFired t st) = intentionalCloseRef st \<and>
   set (timers (timerFired t st)) \<subseteq> set (timers st)"
  by (auto simp add: timerFired_def split: option.splits)

lemma wsCleanup_timers:
  "intentionalCloseRef (wsCleanup st) \<and> set (timers (wsCleanup st)) \<subseteq> set (timers st) \<and>
   reconnectTimeoutRef (wsCleanup st) = None"
  by (auto simp add: wsCleanup_def Let_def split: option.splits)

lemma step_intentional:
  assumes "intentionalCloseRef (fst cs)" and "ev \<noteq> WsEffect"
  shows "intentionalCloseRef (fst (step accepts today ev cs)) \<and>
         set (timers (fst (step accepts today ev cs))) \<subseteq> set (timers (fst cs))"
proof -
  obtain st srv where cs: "cs = (st, srv)" by (cases cs)
  have i: "intentionalCloseRef st" using assms(1) cs by simp
  show ?thesis
    unfolding cs using i assms(2) socketClosed_intentional [OF i] timerFired_timers wsCleanup_timers
    by (cases ev) simp_all
qed

lemma run_intentional:
  "intentionalCloseRef (fst cs) \<Longrightarrow> WsEffect \<notin> set evs \<Longrightarrow>
   intentionalCloseRef (fst (run accepts today evs cs)) \<and>
   set (timers (fst (run accepts today evs cs))) \<subseteq> set (timers (fst cs))"
proof (induction evs arbitrary: cs)
  case Nil
  then show ?case by (simp add: run_def)
next
  case (Cons ev evs)
  have ev: "ev \<noteq> WsEffect" and evs: "WsEffect \<notin> set evs"
    using Cons.prems(2) by auto
  have s: "intentionalCloseRef (fst (step accepts today ev cs))"
    "set (timers (fst (step accepts today ev cs))) \<subseteq> set (timers (fst cs))"
    using step_intentional [OF Cons.prems(1) ev] by simp_all
  have "intentionalCloseRef (fst (run accepts today evs (step accepts today ev cs))) \<and>
        set (timers (fst (run accepts today evs (step accepts today ev cs))))
          \<subseteq> set (timers (fst (step accepts today ev cs)))"
    by (rule Cons.IH [OF s(1) evs])
  with s(2) show ?case by (auto simp add: run_def)
qed

section \<open>The reconnect timers have fresh names\<close>

lemma timerId_setReady [simp]:
  "nextTimerId (setReady ws r st) = nextTimerId (st)"
  by (simp add: setReady_def)

lemma timerId_newSocket [simp]:
  "nextTimerId (newSocket orig cl st) = nextTimerId (st)"
  by (simp add: newSocket_def)

lemma timerId_connect [simp]:
  "nextTimerId (connect cl st) = nextTimerId (st)"
  by (simp add: connect_def)

lemma timerId_invalidateQueries [simp]:
  "nextTimerId (invalidateQueries st) = nextTimerId (st)"
  by (simp add: invalidateQueries_def)

lemma timerId_connect_onopen [simp]:
  "nextTimerId (connect_onopen cl ws st) = nextTimerId (st)"
  by (simp add: connect_onopen_def Let_def split: option.splits)

lemma timerId_resume_onopen [simp]:
  "nextTimerId (resume_onopen cl ws st) = nextTimerId (st)"
  by (simp add: resume_onopen_def split: option.splits)

lemma timerId_updateMemberMarker [simp]:
  "nextTimerId (updateMemberMarker cl uid lat lng now st) = nextTimerId (st)"
  by (simp add: updateMemberMarker_def Let_def split: option.splits)

lemma timerId_connect_onmessage [simp]:
  "nextTimerId (connect_onmessage cl msg now st) = nextTimerId (st)"
  by (cases msg) simp_all

lemma timerId_resume_onmessage [simp]:
  "nextTimerId (resume_onmessage cl msg now st) = nextTimerId (st)"
  by (cases msg) simp_all

lemma timerId_socketOpened [simp]:
  "nextTimerId (socketOpened ws st) = nextTimerId (st)"
  by (simp add: socketOpened_def split: origin.splits)

lemma timerId_socketMessage [simp]:
  "nextTimerId (socketMessage ws msg now st) = nextTimerId (st)"
  by (simp add: socketMessage_def split: origin.splits)

lemma timerId_onPosition [simp]:
  "nextTimerId (onPosition pos st) = nextTimerId (st)"
  by (simp add: onPosition_def Let_def split: option.splits)

lemma timerId_gpsFix [simp]:
  "nextTimerId (gpsFix w pos st) = nextTimerId (st)"
  by (simp add: gpsFix_def)

lemma timerId_clearWatch [simp]:
  "nextTimerId (clearWatch w st) = nextTimerId (st)"
  by (simp add: clearWatch_def)

lemma timerId_watchPosition [simp]:
  "nextTimerId (watchPosition st) = nextTimerId (st)"
  by (simp add: watchPosition_def)

lemma timerId_handleLiveMapResume [simp]:
  "nextTimerId (handleLiveMapResume st) = nextTimerId (st)"
  by (simp add: handleLiveMapResume_def Let_def split: option.splits)

lemma timerId_foregroundResume [simp]:
  "nextTimerId (foregroundResume st) = nextTimerId (st)"
  by (simp add: foregroundResume_def)

lemma timerId_checkSignalLost [simp]:
  "nextTimerId (checkSignalLost now st) = nextTimerId (st)"
  by (simp add: checkSignalLost_def)

lemma timerId_seedMember [simp]:
  "nextTimerId (seedMember now member st) = nextTimerId (st)"
  by (simp add: seedMember_def Let_def split: option.splits)

lemma timerId_fold_seedMember [simp]:
  "nextTimerId (fold (seedMember now) ms st) = nextTimerId (st)"
  by (induction ms arbitrary: st) simp_all

lemma timerId_seedMemberMarkers [simp]:
  "nextTimerId (seedMemberMarkers now st) = nextTimerId (st)"
  by (simp add: seedMemberMarkers_def split: option.splits)

lemma timerId_timerFired [simp]:
  "nextTimerId (timerFired t st) = nextTimerId (st)"
  by (simp add: timerFired_def split: option.splits)

lemma timerId_wsEffect [simp]:
  "nextTimerId (wsEffect st) = nextTimerId (st)"
  by (simp add: wsEffect_def)

lemma timerId_closeSocket [simp]:
  "nextTimerId (closeSocket ws st) = nextTimerId (st)"
  by (simp add: closeSocket_def)

lemma timerId_wsCleanup [simp]:
  "nextTimerId (wsCleanup st) = nextTimerId (st)"
  by (simp add: wsCleanup_def Let_def split: option.splits)

lemma timerId_locationEffect [simp]:
  "nextTimerId (locationEffect st) = nextTimerId (st)"
  by (simp add: locationEffect_def)

lemma timerId_locationCleanup [simp]:
  "nextTimerId (locationCleanup st) = nextTimerId (st)"
  by (simp add: locationCleanup_def split: option.splits)

lemma timerId_leaveRequest [simp]:
  "nextTimerId (fst (leaveRequest accepts st srv)) = nextTimerId (st)"
  by (simp add: leaveRequest_def Let_def)

lemma timerId_leaveMutation [simp]:
  "nextTimerId (fst (leaveMutation accepts today cs)) = nextTimerId (fst cs)"
  by (simp add: leaveMutation_def Let_def split: option.splits)

lemma timerId_deleteMutation [simp]:
  "nextTimerId (fst (deleteMutation accepts today cs)) = nextTimerId (fst cs)"
  by (simp add: deleteMutation_def Let_def)

lemma timers_wsEffect [simp]: "timers (wsEffect st) = timers st"
  by (simp add: wsEffect_def)

lemma timerId_connect_onclose:
  "nextTimerId (connect_onclose cl st) =
     (if intentionalCloseRef st then nextTimerId st else nextTimerId st + 1)"
  by (simp add: connect_onclose_def Let_def)

lemma fresh_connect_onclose:
  "\<forall>e \<in> set (timers st). fst e < nextTimerId st \<Longrightarrow>
   \<forall>e \<in> set (timers (connect_onclose cl st)). fst e < nextTimerId (connect_onclose cl st)"
  by (auto simp add: connect_onclose_def Let_def)

lemma fresh_socketClosed:
  "\<forall>e \<in> set (timers st). fst e < nextTimerId st \<Longrightarrow>
   \<forall>e \<in> set (timers (socketClosed ws st)). fst e < nextTimerId (socketClosed ws st)"
proof -
  assume f: "\<forall>e \<in> set (timers st). fst e < nextTimerId st"
  have "\<forall>e \<in> set (timers (setReady ws CLOSED st)). fst e < nextTimerId (setReady ws CLOSED st)"
    using f by simp
  from fresh_connect_onclose [OF this] f show ?thesis
    by (simp add: socketClosed_def split: origin.splits)
qed

lemma fresh_timerFired:
  "\<forall>e \<in> set (timers st). fst e < nextTimerId st \<Longrightarrow>
   \<forall>e \<in> set (timers (timerFired t st)). fst e < nextTimerId (timerFired t st)"
  by (auto simp add: timerFired_def split: option.splits)

lemma fresh_wsCleanup:
  "\<forall>e \<in> set (timers st). fst e < nextTimerId st \<Longrightarrow>
   \<forall>e \<in> set (timers (wsCleanup st)). fst e < nextTimerId (wsCleanup st)"
  by (auto simp add: wsCleanup_def Let_def split: option.splits)

lemma fresh_step:
  assumes "\<forall>e \<in> set (timers (fst cs)). fst e < nextTimerId (fst cs)"
  shows "\<forall>e \<in> set (timers (fst (step accepts today ev cs))).
           fst e < nextTimerId (fst (step accepts today ev cs))"
proof -
  obtain st srv where cs: "cs = (st, srv)" by (cases cs)
  have f: "\<forall>e \<in> set (timers st). fst e < nextTimerId st" using assms cs by simp
  show ?thesis
    unfolding cs
    using f fresh_socketClosed [OF f] fresh_timerFired [OF f] fresh_wsCleanup [OF f]
    by (cases ev) simp_all
qed

text \<open>
  From the first render on, the name that the next timer will get is not the name of a
  pending timer, as with the handles that \<open>setTimeout\<close> returns.
\<close>

lemma fresh_run:
  "\<forall>e \<in> set (timers (fst cs)). fst e < nextTimerId (fst cs) \<Longrightarrow>
   \<forall>e \<in> set (timers (fst (run accepts today evs cs))).
      fst e < nextTimerId (fst (run accepts today evs cs))"
proof (induction evs arbitrary: cs)
  case Nil
  then show ?case by (simp add: run_def)
next
  case (Cons ev evs)
  from Cons.IH [OF fresh_step [OF Cons.prems]] show ?case by (simp add: run_def)
qed

lemma fresh_reachable:
  "nextTimerId (fst (run accepts today evs (initialClient ops u sid loc, srv)))
     \<notin> fst ` set (timers (fst (run accepts today evs (initialClient ops u sid loc, srv))))"
proof -
  have "\<forall>e \<in> set (timers (fst (initialClient ops u sid loc, srv))).
          fst e < nextTimerId (fst (initialClient ops u sid loc, srv))"
    by (simp add: initialClient_def)
  from fresh_run [OF this, of accepts today evs] show ?thesis by auto
qed

section \<open>Claims about the reconnection\<close>

text \<open>
  The backoff of the sockets that \<open>connect\<close> creates. When such a socket closes and the
  close is not intentional, the close handler schedules the next \<open>connect\<close> after
  \<open>min (1000 * 2 ^ n) 30000\<close> milliseconds, \<open>n\<close> being the attempt counter, and increments
  the counter; the timer (whose name is fresh, as \<open>fresh_reachable\<close> shows for every
  page), when it fires, runs \<open>connect\<close>, which creates the next socket; the counter is
  reset to 0 whenever such a socket opens. For the counters 0 to 5 the delays are 1000,
  2000, 4000, 8000, 16000 and 30000 ms. (The counter and the delay are natural numbers
  here; the doubles of the source are exact on them for every count a page can reach,
  and \<open>Math.min\<close> caps the delay at 30000 also when the power overflows.)
\<close>

lemma connect_socket_backoff:
  assumes "ws < length (sockets st)"
    and "createdBy (sockets st ! ws) = ViaConnect"
    and "\<not> intentionalCloseRef st"
    and "nextTimerId st \<notin> fst ` set (timers st)"
  shows "timers (socketClosed ws st) =
           timers st @ [(nextTimerId st, min (1000 * 2 ^ reconnectAttemptRef st) 30000,
                         handlers (sockets st ! ws))] \<and>
         reconnectTimeoutRef (socketClosed ws st) = Some (nextTimerId st) \<and>
         reconnectAttemptRef (socketClosed ws st) = reconnectAttemptRef st + 1 \<and>
         wsRef (timerFired (nextTimerId st) (socketClosed ws st)) = Some (length (sockets st)) \<and>
         sockets (timerFired (nextTimerId st) (socketClosed ws st)) ! length (sockets st) =
           \<lparr> ready = CONNECTING, createdBy = ViaConnect, handlers = handlers (sockets st ! ws) \<rparr> \<and>
         reconnectAttemptRef (socketOpened ws st) = 0 \<and>
         map (\<lambda>n. fst (snd (last (timers (socketClosed ws (st\<lparr> reconnectAttemptRef := n \<rparr>))))))
           [0, 1, 2, 3, 4, 5] = [1000, 2000, 4000, 8000, 16000, 30000]"
proof -
  let ?cl = "handlers (sockets st ! ws)"
  have closed: "socketClosed ws s = connect_onclose ?cl (setReady ws CLOSED s)"
    if "sockets s = sockets st" for s
    using assms(1,2) that by (simp add: socketClosed_def)
  have c: "socketClosed ws st = connect_onclose ?cl (setReady ws CLOSED st)"
    by (rule closed) simp
  have t: "timers (socketClosed ws st) =
           timers st @ [(nextTimerId st, min (1000 * 2 ^ reconnectAttemptRef st) 30000, ?cl)]"
    using assms(3) by (simp add: c connect_onclose_def Let_def)
  have r: "reconnectTimeoutRef (socketClosed ws st) = Some (nextTimerId st)"
    using assms(3) by (simp add: c connect_onclose_def Let_def)
  have a: "reconnectAttemptRef (socketClosed ws st) = reconnectAttemptRef st + 1"
    using assms(3) by (simp add: c connect_onclose_def Let_def)
  have len: "length (sockets (socketClosed ws st)) = length (sockets st)"
    using assms(3) by (simp add: c connect_onclose_def Let_def setReady_def)
  have none: "map_of (timers st) (nextTimerId st) = None"
    using assms(4) by (simp add: map_of_eq_None_iff)
  have fresh: "map_of (timers (socketClosed ws st)) (nextTimerId st) =
               Some (min (1000 * 2 ^ reconnectAttemptRef st) 30000, ?cl)"
    by (simp add: t map_add_def none)
  have f: "timerFired (nextTimerId st) (socketClosed ws st) =
           connect ?cl ((socketClosed ws st)
             \<lparr> timers := filter (\<lambda>e. fst e \<noteq> nextTimerId st) (timers (socketClosed ws st)) \<rparr>)"
    by (simp add: timerFired_def fresh)
  have w: "wsRef (timerFired (nextTimerId st) (socketClosed ws st)) = Some (length (sockets st))"
    by (simp add: f connect_def newSocket_def len)
  have s: "sockets (timerFired (nextTimerId st) (socketClosed ws st)) ! length (sockets st) =
           \<lparr> ready = CONNECTING, createdBy = ViaConnect, handlers = ?cl \<rparr>"
    by (simp add: f connect_def newSocket_def len [symmetric])
  have o: "reconnectAttemptRef (socketOpened ws st) = 0"
    using assms(1,2) by (simp add: socketOpened_def)
  have d: "fst (snd (last (timers (socketClosed ws (st\<lparr> reconnectAttemptRef := n \<rparr>))))) =
           min (1000 * 2 ^ n) 30000" for n
    using assms(3) by (simp add: closed connect_onclose_def Let_def)
  have m: "map (\<lambda>n. fst (snd (last (timers (socketClosed ws (st\<lparr> reconnectAttemptRef := n \<rparr>))))))
           [0, 1, 2, 3, 4, 5] = [1000, 2000, 4000, 8000, 16000, 30000]"
    unfolding d by simp
  from t r a w s o m show ?thesis by simp
qed

lemma annResumed_connection:
  "sockets annResumed =
     [\<lparr> ready = CLOSED, createdBy = ViaConnect, handlers = currentClosure annPage \<rparr>,
      \<lparr> ready = CONNECTING, createdBy = ViaResume, handlers = currentClosure annPage \<rparr>]"
  "wsRef annResumed = Some 1" "\<not> intentionalCloseRef annResumed"
  "reconnectAttemptRef annResumed = 1"
  "timers annResumed = [(1, 1000, currentClosure annPage)]" "nextTimerId annResumed = 2"
  by (simp_all add: annResumed_def foregroundResume_def handleLiveMapResume_def socketOpen_def
        socketClosed_def connect_onclose_def invalidateQueries_def watchPosition_def
        annLive_def socketOpened_def wsEffect_def annPage_def initialClient_def
        connect_def newSocket_def truthy_def connect_onopen_def setReady_def ann_def
        currentClosure_def Let_def)

text \<open>
  Claim C3 holds for the sockets of \<open>connect\<close> (\<open>connect_socket_backoff\<close>) and fails for
  the socket that \<open>handleLiveMapResume\<close> creates when the page returns to the foreground
  with its connection lost. That socket has the \<open>onopen\<close> and \<open>onmessage\<close> handlers of
  \<open>connect\<close> in a shorter form and no \<open>onclose\<close>: when it opens, the attempt counter
  keeps its value instead of being reset to 0, and when it closes, no reconnect is
  scheduled and the counter is not incremented, whether the close was intentional or
  not.
\<close>

theorem resume_socket_skips_backoff:
  assumes "ws < length (sockets st)" and "createdBy (sockets st ! ws) = ViaResume"
  shows "ready (sockets (socketOpened ws st) ! ws) = OPEN \<and>
         reconnectAttemptRef (socketOpened ws st) = reconnectAttemptRef st \<and>
         ready (sockets (socketClosed ws st) ! ws) = CLOSED \<and>
         timers (socketClosed ws st) = timers st \<and>
         reconnectTimeoutRef (socketClosed ws st) = reconnectTimeoutRef st \<and>
         reconnectAttemptRef (socketClosed ws st) = reconnectAttemptRef st"
  using assms
  by (simp add: socketOpened_def socketClosed_def resume_onopen_def setReady_def
        split: option.splits)

text \<open>
  The failing run. Ann's page loses its connection: the close handler of \<open>connect\<close>
  schedules a reconnect after 1000 ms and the counter becomes 1. Before the timer fires
  the page returns to the foreground and \<open>handleLiveMapResume\<close> makes socket 1. Socket 1
  opens: this is a successful re-open, yet the counter stays 1. When socket 1 closes
  again, nothing is scheduled. When instead the pending timer makes socket 2 and that
  socket fails, the next attempt waits 2000 ms, the delay of attempt 1, where the claim
  gives the delay of attempt 0 after a successful re-open, 1000 ms.
\<close>

theorem resume_socket_skips_backoff_witness:
  "1 < length (sockets annResumed) \<and> createdBy (sockets annResumed ! 1) = ViaResume \<and>
   \<not> intentionalCloseRef annResumed \<and>
   reconnectAttemptRef annResumed = 1 \<and>
   ready (sockets (socketOpened 1 annResumed) ! 1) = OPEN \<and>
   reconnectAttemptRef (socketOpened 1 annResumed) = 1 \<and>
   timers (socketClosed 1 (socketOpened 1 annResumed)) = timers (socketOpened 1 annResumed) \<and>
   reconnectAttemptRef (socketClosed 1 (socketOpened 1 annResumed)) = 1 \<and>
   timers (socketClosed 2 (timerFired 1 (socketOpened 1 annResumed))) =
     [(2, 2000, currentClosure annPage)]"
proof -
  have h: "1 < length (sockets annResumed)" "createdBy (sockets annResumed ! 1) = ViaResume"
    by (simp_all add: annResumed_connection)
  have o: "sockets (socketOpened 1 annResumed) =
             [\<lparr> ready = CLOSED, createdBy = ViaConnect, handlers = currentClosure annPage \<rparr>,
              \<lparr> ready = OPEN, createdBy = ViaResume, handlers = currentClosure annPage \<rparr>]"
    "timers (socketOpened 1 annResumed) = [(1, 1000, currentClosure annPage)]"
    "nextTimerId (socketOpened 1 annResumed) = 2"
    "\<not> intentionalCloseRef (socketOpened 1 annResumed)"
    by (simp_all add: socketOpened_def resume_onopen_def setReady_def annResumed_connection
          currentClosure_def annPage_def initialClient_def ann_def)
  have h': "1 < length (sockets (socketOpened 1 annResumed))"
    "createdBy (sockets (socketOpened 1 annResumed) ! 1) = ViaResume"
    using o by simp_all
  have r: "reconnectAttemptRef (socketOpened 1 annResumed) = 1"
    using resume_socket_skips_backoff [OF h] by (simp add: annResumed_connection)
  have f: "timers (socketClosed 2 (timerFired 1 (socketOpened 1 annResumed))) =
            [(2, 2000, currentClosure annPage)]"
    using o r
    by (simp add: socketClosed_def timerFired_def connect_def newSocket_def connect_onclose_def
          setReady_def Let_def)
  show ?thesis
    using resume_socket_skips_backoff [OF h] resume_socket_skips_backoff [OF h'] h r f
    by (simp add: annResumed_connection)
qed

text \<open>
  What the intentional-close flag achieves. The cleanup that runs when the user leaves
  the page sets the flag and cancels the pending reconnect timer. From then on, as long
  as the WebSocket effect of the page is not started again, the flag stays set through
  every event, and every close event of any socket leaves the timers, the timer
  reference and the attempt counter as they are. If the timer that the page referenced
  was the only one pending, no timer is pending ever after.
\<close>

lemma no_reconnect_until_effect_reruns:
  assumes "WsEffect \<notin> set evs"
  shows "intentionalCloseRef (wsCleanup st) \<and>
         reconnectTimeoutRef (wsCleanup st) = None \<and>
         intentionalCloseRef (fst (run accepts today evs (wsCleanup st, srv))) \<and>
         set (timers (fst (run accepts today evs (wsCleanup st, srv)))) \<subseteq> set (timers st) \<and>
         timers (socketClosed ws (fst (run accepts today evs (wsCleanup st, srv)))) =
           timers (fst (run accepts today evs (wsCleanup st, srv))) \<and>
         reconnectTimeoutRef (socketClosed ws (fst (run accepts today evs (wsCleanup st, srv)))) =
           reconnectTimeoutRef (fst (run accepts today evs (wsCleanup st, srv))) \<and>
         reconnectAttemptRef (socketClosed ws (fst (run accepts today evs (wsCleanup st, srv)))) =
           reconnectAttemptRef (fst (run accepts today evs (wsCleanup st, srv))) \<and>
         ((\<forall>e \<in> set (timers st). Some (fst e) = reconnectTimeoutRef st) \<longrightarrow>
            timers (fst (run accepts today evs (wsCleanup st, srv))) = [])"
proof -
  let ?st = "fst (run accepts today evs (wsCleanup st, srv))"
  have c: "intentionalCloseRef (wsCleanup st)" "reconnectTimeoutRef (wsCleanup st) = None"
    "set (timers (wsCleanup st)) \<subseteq> set (timers st)"
    using wsCleanup_timers [of st] by simp_all
  have "intentionalCloseRef (fst (wsCleanup st, srv))"
    using c(1) by simp
  from run_intentional [OF this assms, of accepts today]
  have r: "intentionalCloseRef ?st" "set (timers ?st) \<subseteq> set (timers (wsCleanup st))"
    by simp_all
  have none: "timers (wsCleanup st) = []"
    if "\<forall>e \<in> set (timers st). Some (fst e) = reconnectTimeoutRef st"
    using that
    by (cases "reconnectTimeoutRef st"; cases "timers st")
       (auto simp add: wsCleanup_def Let_def filter_empty_conv split: option.splits)
  have last: "(\<forall>e \<in> set (timers st). Some (fst e) = reconnectTimeoutRef st) \<longrightarrow> timers ?st = []"
    using none r(2) by auto
  from c r socketClosed_intentional [OF r(1), of ws] last show ?thesis
    by auto
qed

text \<open>
  Claim C7 fails when the WebSocket effect runs again, which it does whenever its
  dependencies \<open>sessionId\<close> and \<open>user\<close> change while the page stays mounted. The cleanup
  of the old run sets the flag and calls \<open>close()\<close>; the new run of the effect clears the
  flag, which is one ref shared by all runs; the close event of the old socket arrives
  after that and its handler, finding the flag cleared, schedules \<open>connect\<close> of the old
  run and increments the counter.
\<close>

theorem effect_rerun_lets_closed_socket_reconnect:
  assumes "wsRef st = Some ws" and "ws < length (sockets st)"
    and "createdBy (sockets st ! ws) = ViaConnect"
    and "truthy (sessionId st)" and "user st \<noteq> None"
  shows "intentionalCloseRef (wsCleanup st) \<and>
         \<not> intentionalCloseRef (wsEffect (wsCleanup st)) \<and>
         timers (socketClosed ws (wsEffect (wsCleanup st))) =
           timers (wsCleanup st) @
             [(nextTimerId st, min (1000 * 2 ^ reconnectAttemptRef st) 30000,
               handlers (sockets st ! ws))] \<and>
         reconnectAttemptRef (socketClosed ws (wsEffect (wsCleanup st))) =
           reconnectAttemptRef st + 1"
proof -
  let ?c = "wsCleanup st"
  let ?e = "wsEffect ?c"
  have c: "intentionalCloseRef ?c"
    using wsCleanup_timers [of st] by simp
  have g: "truthy (sessionId ?c)" "user ?c \<noteq> None"
    using assms(4,5) by (simp_all add: wsCleanup_def closeSocket_def setReady_def Let_def
      split: option.splits)
  have e: "?e = connect (currentClosure ?c) (?c\<lparr> intentionalCloseRef := False \<rparr>)"
    using g by (auto simp add: wsEffect_def)
  have sc: "sockets ?c = sockets (closeSocket ws st)"
    using assms(1) by (auto simp add: wsCleanup_def Let_def closeSocket_def setReady_def
      split: option.splits)
  have lc: "length (sockets ?c) = length (sockets st)"
    and cc: "createdBy (sockets ?c ! ws) = ViaConnect"
    and hc: "handlers (sockets ?c ! ws) = handlers (sockets st ! ws)"
    using assms(2,3) by (simp_all add: sc closeSocket_def setReady_def)
  have se: "sockets ?e = sockets ?c @
              [\<lparr> ready = CONNECTING, createdBy = ViaConnect, handlers = currentClosure ?c \<rparr>]"
    by (simp add: e connect_def newSocket_def)
  have le: "ws < length (sockets ?e)" and ce: "createdBy (sockets ?e ! ws) = ViaConnect"
    and he: "handlers (sockets ?e ! ws) = handlers (sockets st ! ws)"
    using assms(2) lc cc hc by (simp_all add: se nth_append)
  have f: "\<not> intentionalCloseRef ?e"
    by (simp add: e connect_def newSocket_def)
  have ac: "reconnectAttemptRef ?c = reconnectAttemptRef st"
    by (simp add: wsCleanup_def closeSocket_def setReady_def Let_def split: option.splits)
  have n: "nextTimerId ?e = nextTimerId st" "reconnectAttemptRef ?e = reconnectAttemptRef st"
    "timers ?e = timers ?c"
    by (simp_all add: e connect_def newSocket_def ac)
  have s: "socketClosed ws ?e = connect_onclose (handlers (sockets st ! ws)) (setReady ws CLOSED ?e)"
    using le ce he by (simp add: socketClosed_def)
  have t: "timers (socketClosed ws ?e) =
           timers ?c @ [(nextTimerId st, min (1000 * 2 ^ reconnectAttemptRef st) 30000,
                         handlers (sockets st ! ws))]"
    using f n by (simp add: s connect_onclose_def Let_def setReady_def)
  have a: "reconnectAttemptRef (socketClosed ws ?e) = reconnectAttemptRef st + 1"
    using f n by (simp add: s connect_onclose_def Let_def setReady_def)
  from c f t a show ?thesis by simp
qed

text \<open>
  The failing run. Ann views session 7 with her socket open and follows a link to
  session 8: the page stays mounted and \<open>sessionId\<close> changes. The cleanup closes
  socket 0, the effect makes socket 1 for session 8, and then the close event of
  socket 0 arrives: a reconnect is scheduled after 1000 ms. When that timer fires,
  \<open>connect\<close> of the old run makes socket 2, puts it in \<open>wsRef\<close> in place of socket 1, and
  socket 2 joins session 7 again.
\<close>

theorem effect_rerun_lets_closed_socket_reconnect_witness:
  "wsRef annMoved = Some 0 \<and> 0 < length (sockets annMoved) \<and>
   createdBy (sockets annMoved ! 0) = ViaConnect \<and> sessionId annMoved = Some 8 \<and>
   truthy (sessionId annMoved) \<and> user annMoved \<noteq> None \<and>
   intentionalCloseRef (wsCleanup annMoved) \<and>
   timers (socketClosed 0 (wsEffect (wsCleanup annMoved))) = [(1, 1000, currentClosure annPage)] \<and>
   cl_sessionId (currentClosure annPage) = Some 7 \<and>
   wsRef (fst (run acceptsAll ''3/11/2026''
     [RouteChanged ''/live-map/8'' (Some 8), WsCleanup, WsEffect, SocketClosed 0,
      TimerFired 1, SocketOpened 2] (annLive, []))) = Some 2 \<and>
   last (sent (fst (run acceptsAll ''3/11/2026''
     [RouteChanged ''/live-map/8'' (Some 8), WsCleanup, WsEffect, SocketClosed 0,
      TimerFired 1, SocketOpened 2] (annLive, [])))) = (2, SessionJoin (Some 7))"
proof -
  have m: "sockets annMoved =
             [\<lparr> ready = OPEN, createdBy = ViaConnect, handlers = currentClosure annPage \<rparr>]"
    "wsRef annMoved = Some 0" "sessionId annMoved = Some 8" "user annMoved = Some ann"
    "timers annMoved = []" "nextTimerId annMoved = 1" "reconnectAttemptRef annMoved = 0"
    "reconnectTimeoutRef annMoved = None"
    by (simp_all add: annMoved_def annLive_def socketOpened_def wsEffect_def annPage_def
          initialClient_def connect_def newSocket_def truthy_def connect_onopen_def setReady_def
          ann_def currentClosure_def)
  have h: "wsRef annMoved = Some 0" "0 < length (sockets annMoved)"
    "createdBy (sockets annMoved ! 0) = ViaConnect" "truthy (sessionId annMoved)"
    "user annMoved \<noteq> None"
    by (simp_all add: m truthy_def)
  have c: "timers (wsCleanup annMoved) = []"
    by (simp add: wsCleanup_def closeSocket_def setReady_def m Let_def)
  have k: "cl_sessionId (currentClosure annPage) = Some 7"
    by (simp add: currentClosure_def annPage_def initialClient_def)
  have r: "fst (run acceptsAll ''3/11/2026''
     [RouteChanged ''/live-map/8'' (Some 8), WsCleanup, WsEffect, SocketClosed 0,
      TimerFired 1, SocketOpened 2] (annLive, [])) =
     socketOpened 2 (timerFired 1 (socketClosed 0 (wsEffect (wsCleanup annMoved))))"
    by (simp add: run_def annMoved_def)
  have w: "wsRef (socketOpened 2 (timerFired 1 (socketClosed 0 (wsEffect (wsCleanup annMoved))))) =
             Some 2"
    "last (sent (socketOpened 2 (timerFired 1 (socketClosed 0 (wsEffect (wsCleanup annMoved)))))) =
       (2, SessionJoin (Some 7))"
    by (simp_all add: socketOpened_def timerFired_def socketClosed_def wsEffect_def wsCleanup_def
          closeSocket_def connect_def newSocket_def connect_onopen_def connect_onclose_def
          setReady_def truthy_def m k Let_def currentClosure_def annPage_def initialClient_def
          ann_def)
  show ?thesis
    unfolding r
    using effect_rerun_lets_closed_socket_reconnect [OF h] h m c k w
    by simp
qed

section \<open>The time stamps have one entry for each member\<close>

lemma lastUpdate_setReady [simp]:
  "memberLastUpdateRef (setReady ws r st) = memberLastUpdateRef (st)"
  by (simp add: setReady_def)

lemma lastUpdate_newSocket [simp]:
  "memberLastUpdateRef (newSocket orig cl st) = memberLastUpdateRef (st)"
  by (simp add: newSocket_def)

lemma lastUpdate_connect [simp]:
  "memberLastUpdateRef (connect cl st) = memberLastUpdateRef (st)"
  by (simp add: connect_def)

lemma lastUpdate_invalidateQueries [simp]:
  "memberLastUpdateRef (invalidateQueries st) = memberLastUpdateRef (st)"
  by (simp add: invalidateQueries_def)

lemma lastUpdate_connect_onopen [simp]:
  "memberLastUpdateRef (connect_onopen cl ws st) = memberLastUpdateRef (st)"
  by (simp add: connect_onopen_def Let_def split: option.splits)

lemma lastUpdate_resume_onopen [simp]:
  "memberLastUpdateRef (resume_onopen cl ws st) = memberLastUpdateRef (st)"
  by (simp add: resume_onopen_def split: option.splits)

lemma lastUpdate_connect_onclose [simp]:
  "memberLastUpdateRef (connect_onclose cl st) = memberLastUpdateRef (st)"
  by (simp add: connect_onclose_def Let_def)

lemma lastUpdate_socketOpened [simp]:
  "memberLastUpdateRef (socketOpened ws st) = memberLastUpdateRef (st)"
  by (simp add: socketOpened_def split: origin.splits)

lemma lastUpdate_socketClosed [simp]:
  "memberLastUpdateRef (socketClosed ws st) = memberLastUpdateRef (st)"
  by (simp add: socketClosed_def split: origin.splits)

lemma lastUpdate_timerFired [simp]:
  "memberLastUpdateRef (timerFired t st) = memberLastUpdateRef (st)"
  by (simp add: timerFired_def split: option.splits)

lemma lastUpdate_onPosition [simp]:
  "memberLastUpdateRef (onPosition pos st) = memberLastUpdateRef (st)"
  by (simp add: onPosition_def Let_def split: option.splits)

lemma lastUpdate_gpsFix [simp]:
  "memberLastUpdateRef (gpsFix w pos st) = memberLastUpdateRef (st)"
  by (simp add: gpsFix_def)

lemma lastUpdate_clearWatch [simp]:
  "memberLastUpdateRef (clearWatch w st) = memberLastUpdateRef (st)"
  by (simp add: clearWatch_def)

lemma lastUpdate_watchPosition [simp]:
  "memberLastUpdateRef (watchPosition st) = memberLastUpdateRef (st)"
  by (simp add: watchPosition_def)

lemma lastUpdate_handleLiveMapResume [simp]:
  "memberLastUpdateRef (handleLiveMapResume st) = memberLastUpdateRef (st)"
  by (simp add: handleLiveMapResume_def Let_def split: option.splits)

lemma lastUpdate_foregroundResume [simp]:
  "memberLastUpdateRef (foregroundResume st) = memberLastUpdateRef (st)"
  by (simp add: foregroundResume_def)

lemma lastUpdate_checkSignalLost [simp]:
  "memberLastUpdateRef (checkSignalLost now st) = memberLastUpdateRef (st)"
  by (simp add: checkSignalLost_def)

lemma lastUpdate_wsEffect [simp]:
  "memberLastUpdateRef (wsEffect st) = memberLastUpdateRef (st)"
  by (simp add: wsEffect_def)

lemma lastUpdate_closeSocket [simp]:
  "memberLastUpdateRef (closeSocket ws st) = memberLastUpdateRef (st)"
  by (simp add: closeSocket_def)

lemma lastUpdate_wsCleanup [simp]:
  "memberLastUpdateRef (wsCleanup st) = memberLastUpdateRef (st)"
  by (simp add: wsCleanup_def Let_def split: option.splits)

lemma lastUpdate_locationEffect [simp]:
  "memberLastUpdateRef (locationEffect st) = memberLastUpdateRef (st)"
  by (simp add: locationEffect_def)

lemma lastUpdate_locationCleanup [simp]:
  "memberLastUpdateRef (locationCleanup st) = memberLastUpdateRef (st)"
  by (simp add: locationCleanup_def split: option.splits)

lemma lastUpdate_leaveRequest [simp]:
  "memberLastUpdateRef (fst (leaveRequest accepts st srv)) = memberLastUpdateRef (st)"
  by (simp add: leaveRequest_def Let_def)

lemma lastUpdate_leaveMutation [simp]:
  "memberLastUpdateRef (fst (leaveMutation accepts today cs)) = memberLastUpdateRef (fst cs)"
  by (simp add: leaveMutation_def Let_def split: option.splits)

lemma lastUpdate_deleteMutation [simp]:
  "memberLastUpdateRef (fst (deleteMutation accepts today cs)) = memberLastUpdateRef (fst cs)"
  by (simp add: deleteMutation_def Let_def)

lemma distinct_lastUpdate_updateMemberMarker:
  "distinct (map fst (memberLastUpdateRef st)) \<Longrightarrow>
   distinct (map fst (memberLastUpdateRef (updateMemberMarker cl uid lat lng now st)))"
  by (simp add: updateMemberMarker_def Let_def distinct_update split: option.splits)

lemma distinct_lastUpdate_connect_onmessage:
  "distinct (map fst (memberLastUpdateRef st)) \<Longrightarrow>
   distinct (map fst (memberLastUpdateRef (connect_onmessage cl msg now st)))"
  by (cases msg) (simp_all add: distinct_lastUpdate_updateMemberMarker)

lemma distinct_lastUpdate_resume_onmessage:
  "distinct (map fst (memberLastUpdateRef st)) \<Longrightarrow>
   distinct (map fst (memberLastUpdateRef (resume_onmessage cl msg now st)))"
  by (cases msg) (simp_all add: distinct_lastUpdate_updateMemberMarker)

lemma distinct_lastUpdate_socketMessage:
  "distinct (map fst (memberLastUpdateRef st)) \<Longrightarrow>
   distinct (map fst (memberLastUpdateRef (socketMessage ws msg now st)))"
  by (simp add: socketMessage_def distinct_lastUpdate_connect_onmessage
        distinct_lastUpdate_resume_onmessage split: origin.splits)

lemma distinct_lastUpdate_seedMember:
  "distinct (map fst (memberLastUpdateRef st)) \<Longrightarrow>
   distinct (map fst (memberLastUpdateRef (seedMember now member st)))"
  using distinct_lastUpdate_updateMemberMarker [of st "currentClosure st"]
  by (simp add: seedMember_def Let_def distinct_update split: option.splits)

lemma distinct_lastUpdate_fold_seedMember:
  "distinct (map fst (memberLastUpdateRef st)) \<Longrightarrow>
   distinct (map fst (memberLastUpdateRef (fold (seedMember now) ms st)))"
  by (induction ms arbitrary: st) (simp_all add: distinct_lastUpdate_seedMember)

lemma distinct_lastUpdate_seedMemberMarkers:
  "distinct (map fst (memberLastUpdateRef st)) \<Longrightarrow>
   distinct (map fst (memberLastUpdateRef (seedMemberMarkers now st)))"
  by (simp add: seedMemberMarkers_def distinct_lastUpdate_fold_seedMember split: option.splits)

lemma distinct_lastUpdate_step:
  "distinct (map fst (memberLastUpdateRef (fst cs))) \<Longrightarrow>
   distinct (map fst (memberLastUpdateRef (fst (step accepts today ev cs))))"
proof -
  assume d: "distinct (map fst (memberLastUpdateRef (fst cs)))"
  obtain st srv where cs: "cs = (st, srv)" by (cases cs)
  show ?thesis
    using d unfolding cs
    by (cases ev)
       (simp_all add: distinct_lastUpdate_socketMessage distinct_lastUpdate_seedMemberMarkers)
qed

text \<open>
  From the first render on, \<open>memberLastUpdateRef\<close> never holds two entries for one
  member, as the JavaScript \<open>Map\<close> it stands for.
\<close>

lemma distinct_lastUpdate_run:
  "distinct (map fst (memberLastUpdateRef (fst cs))) \<Longrightarrow>
   distinct (map fst (memberLastUpdateRef (fst (run accepts today evs cs))))"
proof (induction evs arbitrary: cs)
  case Nil
  then show ?case by (simp add: run_def)
next
  case (Cons ev evs)
  from Cons.IH [OF distinct_lastUpdate_step [OF Cons.prems]]
  show ?case by (simp add: run_def)
qed

lemma distinct_lastUpdate_reachable:
  "distinct (map fst (memberLastUpdateRef
     (fst (run accepts today evs (initialClient ops u sid loc, srv)))))"
  by (rule distinct_lastUpdate_run) (simp add: initialClient_def)

section \<open>The signal-lost sweep\<close>

lemma checkSignalLostEntry_other:
  "uid \<noteq> fst entry \<Longrightarrow>
   map_of (checkSignalLostEntry me now entry markers) uid = map_of markers uid"
  by (simp add: checkSignalLostEntry_def Let_def update_conv' split: option.splits)

lemma checkSignalLostEntry_same:
  "map_of (checkSignalLostEntry me now (uid, t) markers) uid =
     (if Some uid = me then map_of markers uid
      else (case map_of markers uid of
              None \<Rightarrow> None
            | Some el \<Rightarrow>
                Some (if now - t > SIGNAL_LOST_THRESHOLD then showSignalLost t el
                      else el\<lparr> dotOpacity := ''1'' \<rparr>)))"
  by (simp add: checkSignalLostEntry_def Let_def update_conv' split: option.splits)

lemma fold_checkSignalLostEntry_absent:
  "uid \<notin> fst ` set entries \<Longrightarrow>
   map_of (fold (checkSignalLostEntry me now) entries markers) uid = map_of markers uid"
proof (induction entries arbitrary: markers)
  case Nil
  then show ?case by simp
next
  case (Cons e entries)
  then have "uid \<noteq> fst e" and "uid \<notin> fst ` set entries" by auto
  then show ?case
    using Cons.IH [of "checkSignalLostEntry me now e markers"]
    by (simp add: checkSignalLostEntry_other)
qed

lemma fold_checkSignalLostEntry_present:
  "distinct (map fst entries) \<Longrightarrow> map_of entries uid = Some t \<Longrightarrow>
   map_of (fold (checkSignalLostEntry me now) entries markers) uid =
     map_of (checkSignalLostEntry me now (uid, t) markers) uid"
proof (induction entries arbitrary: markers)
  case Nil
  then show ?case by simp
next
  case (Cons e entries)
  obtain k t' where e: "e = (k, t')" by (cases e)
  show ?case
  proof (cases "k = uid")
    case True
    then have t: "t' = t" using Cons.prems(2) e by simp
    have "uid \<notin> fst ` set entries" using Cons.prems(1) e True by auto
    then show ?thesis
      using fold_checkSignalLostEntry_absent [of uid entries me now "checkSignalLostEntry me now e markers"]
      by (simp add: e True t)
  next
    case False
    then have m: "map_of entries uid = Some t" using Cons.prems(2) e by simp
    have d: "distinct (map fst entries)" using Cons.prems(1) by simp
    have o: "map_of (checkSignalLostEntry me now e markers) uid = map_of markers uid"
      using False by (simp add: checkSignalLostEntry_other e)
    have "map_of (fold (checkSignalLostEntry me now) entries (checkSignalLostEntry me now e markers)) uid =
          map_of (checkSignalLostEntry me now (uid, t) (checkSignalLostEntry me now e markers)) uid"
      by (rule Cons.IH [OF d m])
    then show ?thesis
      by (simp add: checkSignalLostEntry_same o)
  qed
qed

lemma fold_checkSignalLostEntry_me:
  "map_of (fold (checkSignalLostEntry (Some uid) now) entries markers) uid = map_of markers uid"
proof (induction entries arbitrary: markers)
  case Nil
  then show ?case by simp
next
  case (Cons e entries)
  have "map_of (checkSignalLostEntry (Some uid) now e markers) uid = map_of markers uid"
    by (cases "fst e = uid")
       (simp_all add: checkSignalLostEntry_def Let_def update_conv' split: option.splits)
  then show ?case using Cons.IH [of "checkSignalLostEntry (Some uid) now e markers"] by simp
qed

lemma checkSignalLost_only_markers:
  "checkSignalLost now st = st\<lparr> memberMarkersRef := memberMarkersRef (checkSignalLost now st) \<rparr>"
  by (simp add: checkSignalLost_def)

text \<open>
  Claim C5. The sweep \<open>checkSignalLost\<close>, which the page runs every 15000 ms, treats a
  member that is not the local user, has a time stamp \<open>lastUpdate\<close> and has a marker as
  follows: when \<open>now - lastUpdate\<close> exceeds 120000 ms it marks the member as signal-lost
  (dot dimmed and still, red overlay and label shown), otherwise it only restores the
  opacity of the dot; so a member not marked before the sweep is marked after it exactly
  when more than 120 seconds have elapsed. The marker of the local user is never
  changed. The sweep changes nothing but the marker elements and persists nothing.
\<close>

theorem signal_lost_sweep:
  assumes "distinct (map fst (memberLastUpdateRef st))"
    and "map_of (memberLastUpdateRef st) uid = Some lastUpdate"
    and "map_of (memberMarkersRef st) uid = Some el"
  shows "SIGNAL_CHECK_INTERVAL = 15000 \<and> SIGNAL_LOST_THRESHOLD = 120000 \<and>
         (Some uid \<noteq> map_option user_id (user st) \<longrightarrow>
            map_of (memberMarkersRef (checkSignalLost now st)) uid =
              Some (if now - lastUpdate > 120000 then showSignalLost lastUpdate el
                    else el\<lparr> dotOpacity := ''1'' \<rparr>)) \<and>
         (Some uid \<noteq> map_option user_id (user st) \<longrightarrow> lostOverlayDisplay el \<noteq> ''block'' \<longrightarrow>
            (signalLost (checkSignalLost now st) uid \<longleftrightarrow> now - lastUpdate > 120000)) \<and>
         (Some uid = map_option user_id (user st) \<longrightarrow>
            map_of (memberMarkersRef (checkSignalLost now st)) uid = Some el) \<and>
         checkSignalLost now st = st\<lparr> memberMarkersRef := memberMarkersRef (checkSignalLost now st) \<rparr> \<and>
         snd (step accepts today (SignalCheck now) (st, srv)) = srv"
proof -
  let ?me = "map_option user_id (user st)"
  have k: "SIGNAL_CHECK_INTERVAL = 15000" "SIGNAL_LOST_THRESHOLD = 120000"
    by (simp_all add: SIGNAL_CHECK_INTERVAL_def SIGNAL_LOST_THRESHOLD_def)
  have m: "map_of (memberMarkersRef (checkSignalLost now st)) uid =
           map_of (checkSignalLostEntry ?me now (uid, lastUpdate) (memberMarkersRef st)) uid"
    using fold_checkSignalLostEntry_present [OF assms(1,2)]
    by (simp add: checkSignalLost_def)
  have other: "map_of (memberMarkersRef (checkSignalLost now st)) uid =
              Some (if now - lastUpdate > 120000 then showSignalLost lastUpdate el
                    else el\<lparr> dotOpacity := ''1'' \<rparr>)"
    if "Some uid \<noteq> ?me"
    using that assms(3) by (simp add: m checkSignalLostEntry_same k(2))
  have iff: "signalLost (checkSignalLost now st) uid \<longleftrightarrow> now - lastUpdate > 120000"
    if "Some uid \<noteq> ?me" and "lostOverlayDisplay el \<noteq> ''block''"
    using other [OF that(1)] that(2) by (simp add: signalLost_def showSignalLost_def)
  have me: "map_of (memberMarkersRef (checkSignalLost now st)) uid = Some el"
    if "Some uid = ?me"
    using that assms(3) by (simp add: m checkSignalLostEntry_same)
  from k other iff me checkSignalLost_only_markers [of now st] show ?thesis
    by simp
qed

theorem signal_lost_sweep_witness:
  "distinct (map fst (memberLastUpdateRef bobSeen)) \<and>
   map_of (memberLastUpdateRef bobSeen) 2 = Some 1000 \<and>
   map_of (memberMarkersRef bobSeen) 2 = Some (newMarker 10 10) \<and>
   Some 2 \<noteq> map_option user_id (user bobSeen) \<and>
   \<not> signalLost bobSeen 2 \<and>
   \<not> signalLost (checkSignalLost 121000 bobSeen) 2 \<and>
   signalLost (checkSignalLost 121001 bobSeen) 2 \<and>
   map_of (memberMarkersRef (checkSignalLost 121001 bobSeen)) 2 =
     Some (showSignalLost 1000 (newMarker 10 10))"
proof -
  have e: "memberLastUpdateRef bobSeen = [(2, 1000)]"
    "memberMarkersRef bobSeen = [(2, newMarker 10 10)]"
    "user bobSeen = Some ann"
    by (simp_all add: bobSeen_def annLive_def socketOpened_def wsEffect_def annPage_def
          initialClient_def connect_def newSocket_def truthy_def connect_onopen_def setReady_def
          socketMessage_def updateMemberMarker_def Let_def ann_def currentClosure_def)
  have h: "distinct (map fst (memberLastUpdateRef bobSeen))"
    "map_of (memberLastUpdateRef bobSeen) 2 = Some 1000"
    "map_of (memberMarkersRef bobSeen) 2 = Some (newMarker 10 10)"
    by (simp_all add: e)
  have u: "Some 2 \<noteq> map_option user_id (user bobSeen)"
    by (simp add: e ann_def)
  have n: "lostOverlayDisplay (newMarker 10 10) \<noteq> ''block''" "\<not> signalLost bobSeen 2"
    by (simp_all add: newMarker_def signalLost_def e)
  have a: "signalLost (checkSignalLost 121000 bobSeen) 2 \<longleftrightarrow> (121000::int) - 1000 > 120000"
    using signal_lost_sweep [OF h, where now = 121000] u n(1) by blast
  have b: "signalLost (checkSignalLost 121001 bobSeen) 2 \<longleftrightarrow> (121001::int) - 1000 > 120000"
    using signal_lost_sweep [OF h, where now = 121001] u n(1) by blast
  have c: "map_of (memberMarkersRef (checkSignalLost 121001 bobSeen)) 2 =
           Some (if (121001::int) - 1000 > 120000 then showSignalLost 1000 (newMarker 10 10)
                 else (newMarker 10 10)\<lparr> dotOpacity := ''1'' \<rparr>)"
    using signal_lost_sweep [OF h, where now = 121001] u by blast
  show ?thesis
    using h u n(2) a b c by simp
qed

section \<open>Distances and saved routes\<close>






lemma exact_simps:
  "js_sub exact = (\<lambda>x y. x - y)" "js_add exact = (\<lambda>x y. x + y)"
  "js_mul exact = (\<lambda>x y. x * y)" "js_div exact = (\<lambda>x y. x / y)"
  "js_sin exact = sin" "js_cos exact = cos" "js_sqrt exact = sqrt"
  "js_atan2 exact = Math_atan2" "js_PI exact = pi"
  by (simp_all add: exact_def)






lemma routesOf_append: "routesOf (xs @ ys) = routesOf xs @ routesOf ys"
  by (induction xs rule: routesOf.induct) simp_all

lemma routesOf_PostRoute: "routesOf (map PostRoute rs) = rs"
  by (induction rs) simp_all

lemma saveLoop_eq:
  "saveLoop accepts ops today sess entries (n, srv) =
     (n + length (filter (\<lambda>e. 2 \<le> length (snd e) \<and>
                              accepts (PostRoute (memberRoute ops today sess (fst e) (snd e)))) entries),
      srv @ map (\<lambda>e. PostRoute (memberRoute ops today sess (fst e) (snd e)))
              (filter (\<lambda>e. 2 \<le> length (snd e) \<and>
                            accepts (PostRoute (memberRoute ops today sess (fst e) (snd e)))) entries))"
proof (induction entries arbitrary: n srv)
  case Nil
  then show ?case by simp
next
  case (Cons e entries)
  obtain uid path where e: "e = (uid, path)" by (cases e)
  show ?case
    unfolding e by (simp add: Cons.IH Let_def not_less)
qed

lemma routes_deleteMutation:
  "routesOf (snd (deleteMutation accepts today (st, srv))) =
     routesOf srv @
     map (\<lambda>e. memberRoute (numbers st) today (session st) (fst e) (snd e))
       (filter (\<lambda>e. 2 \<le> length (snd e) \<and>
                     accepts (PostRoute (memberRoute (numbers st) today (session st) (fst e) (snd e))))
          (memberPaths st))"
proof -
  have m: "map (\<lambda>e. PostRoute (f e)) xs = map PostRoute (map f xs)"
    for f :: "nat \<times> point list \<Rightarrow> route_body" and xs
    by simp
  show ?thesis
    by (simp add: deleteMutation_def saveSessionPathsAsRoutes_def saveLoop_eq Let_def
          routesOf_append m routesOf_PostRoute del: map_map)
qed

lemma filter_key_distinct:
  "distinct (map fst xs) \<Longrightarrow>
   filter (\<lambda>e. fst e = k) xs = (case map_of xs k of None \<Rightarrow> [] | Some v \<Rightarrow> [(k, v)])"
proof (induction xs)
  case Nil
  then show ?case by simp
next
  case (Cons x xs)
  obtain a b where x: "x = (a, b)" by (cases x)
  show ?case
  proof (cases "a = k")
    case True
    then have "k \<notin> fst ` set xs" using Cons.prems x by auto
    then have "filter (\<lambda>e. fst e = k) xs = []"
      by (auto simp add: filter_empty_conv)
    then show ?thesis using True x by simp
  next
    case False
    then show ?thesis using Cons x by simp
  qed
qed


lemma annTracked_state:
  "memberPaths annTracked = [(1, [(10, 10)]), (2, [(10, 10), (10.01, 10.01)])]"
  "numbers annTracked = exact"
  "session annTracked = Some ridgeSession"
  "sessionId annTracked = Some 7"
  "user annTracked = Some ann"
  "location annTracked = ''/live-map/7''"
  by (simp_all add: annTracked_def feedLocations_def annLive_def socketOpened_def wsEffect_def
        annPage_def initialClient_def connect_def newSocket_def truthy_def connect_onopen_def
        setReady_def ann_def updateMemberMarker_def addToPathHistory_def pathOf_def Let_def
        currentClosure_def exact_simps MIN_DISPLACEMENT_def)

lemma bobTracked_state:
  "memberPaths bobTracked = [(2, [(10, 10), (10.01, 10.01)])]"
  "numbers bobTracked = exact"
  "session bobTracked = Some ridgeSession"
  "sessionId bobTracked = Some 7"
  "user bobTracked = Some bob"
  by (simp_all add: bobTracked_def bobPage_def feedLocations_def initialClient_def bob_def
        updateMemberMarker_def addToPathHistory_def pathOf_def Let_def currentClosure_def
        exact_simps MIN_DISPLACEMENT_def)


lemma distinct_memberPaths_updateMemberMarker:
  "distinct (map fst (memberPaths st)) \<Longrightarrow>
   distinct (map fst (memberPaths (updateMemberMarker cl uid lat lng now st)))"
  by (simp add: memberPaths_updateMemberMarker addToPathHistory_def Let_def distinct_update)

lemma distinct_memberPaths_socketMessage:
  "distinct (map fst (memberPaths st)) \<Longrightarrow>
   distinct (map fst (memberPaths (socketMessage ws msg now st)))"
  by (cases msg)
     (simp_all add: socketMessage_def distinct_memberPaths_updateMemberMarker split: origin.splits)

lemma distinct_memberPaths_seedMember:
  "distinct (map fst (memberPaths st)) \<Longrightarrow>
   distinct (map fst (memberPaths (seedMember now member st)))"
  using distinct_memberPaths_updateMemberMarker [of st "currentClosure st"]
  by (simp add: seedMember_def Let_def split: option.splits)

lemma distinct_memberPaths_seedMemberMarkers:
  "distinct (map fst (memberPaths st)) \<Longrightarrow>
   distinct (map fst (memberPaths (seedMemberMarkers now st)))"
proof -
  have "distinct (map fst (memberPaths s)) \<Longrightarrow>
        distinct (map fst (memberPaths (fold (seedMember now) ms s)))" for ms s
    by (induction ms arbitrary: s) (simp_all add: distinct_memberPaths_seedMember)
  then show "distinct (map fst (memberPaths st)) \<Longrightarrow> ?thesis"
    by (simp add: seedMemberMarkers_def split: option.splits)
qed

text \<open>
  From the first render on, \<open>memberPaths\<close> holds at most one path for each member, as
  the JavaScript \<open>Map\<close> it stands for.
\<close>

lemma distinct_memberPaths_run:
  "distinct (map fst (memberPaths (fst cs))) \<Longrightarrow>
   distinct (map fst (memberPaths (fst (run accepts today evs cs))))"
proof (induction evs arbitrary: cs)
  case Nil
  then show ?case by (simp add: run_def)
next
  case (Cons ev evs)
  obtain st srv where cs: "cs = (st, srv)" by (cases cs)
  have "distinct (map fst (memberPaths (fst (step accepts today ev cs))))"
    using Cons.prems unfolding cs
    by (cases ev)
       (simp_all add: distinct_memberPaths_socketMessage distinct_memberPaths_seedMemberMarkers)
  from Cons.IH [OF this] show ?case by (simp add: run_def)
qed

lemma routes_leaveRequest: "routesOf (snd (leaveRequest accepts st srv)) = routesOf srv"
  by (simp add: leaveRequest_def Let_def routesOf_append)

lemma routes_leaveMutation:
  "routesOf (snd (leaveMutation accepts today (st, srv))) =
     routesOf srv @
     (case map_of (memberPaths st) (case user st of None \<Rightarrow> 0 | Some u \<Rightarrow> user_id u) of
        None \<Rightarrow> []
      | Some path \<Rightarrow>
          if 2 \<le> length path \<and> accepts (PostRoute (myRoute (numbers st) today (session st) path))
          then [myRoute (numbers st) today (session st) path] else [])"
  by (simp add: leaveMutation_def Let_def routes_leaveRequest routesOf_append split: option.splits)

lemma deleteMutation_page:
  "fst (deleteMutation accepts today (st, srv)) =
     (if accepts (DeleteLiveMap (sessionId st))
      then st\<lparr> toasts := toasts st @
                  [\<lparr> title = ''Session ended'',
                     description = ''All paths have been saved as routes'' \<rparr>],
               location := ''/'' \<rparr>
      else st)"
  by (simp add: deleteMutation_def Let_def)

lemma leaveMutation_page:
  "fst (leaveMutation accepts today (st, srv)) = st \<or>
   fst (leaveMutation accepts today (st, srv)) =
     st\<lparr> toasts := toasts st @
            [\<lparr> title = ''Left session'',
               description = ''Your path has been saved as a route'' \<rparr>],
         location := ''/'' \<rparr>"
  by (simp add: leaveMutation_def leaveRequest_def Let_def split: option.splits)




text \<open>
  Claim C2 does not hold. Ann's page has accumulated two points for Bob. She ends the
  session while the server stores routes but fails to end the session: the page and its
  paths stay as they were, and ending again persists the same route a second time. And
  when Ann's ending succeeds and Bob then leaves from his own page, Bob's path is
  persisted by both, with the same points.
\<close>

theorem flush_at_most_once_counterexample:
  "memberPath annTracked 2 = [(10, 10), (10.01, 10.01)] \<and>
   fst (deleteMutation refusesDelete ''3/11/2026'' (annTracked, [])) = annTracked \<and>
   routesOf (snd (run refusesDelete ''3/11/2026'' [ClickEndSession, ClickEndSession] (annTracked, []))) =
     [memberRoute exact ''3/11/2026'' (Some ridgeSession) 2 [(10, 10), (10.01, 10.01)],
      memberRoute exact ''3/11/2026'' (Some ridgeSession) 2 [(10, 10), (10.01, 10.01)]] \<and>
   memberPath (fst (deleteMutation acceptsAll ''3/11/2026'' (annTracked, []))) 2 =
     [(10, 10), (10.01, 10.01)] \<and>
   map pathCoordinates
     (routesOf (snd (leaveMutation acceptsAll ''3/11/2026''
        (bobTracked, snd (deleteMutation acceptsAll ''3/11/2026'' (annTracked, [])))))) =
     [[\<lparr> c_lat = 10, c_lng = 10 \<rparr>, \<lparr> c_lat = 10.01, c_lng = 10.01 \<rparr>],
      [\<lparr> c_lat = 10, c_lng = 10 \<rparr>, \<lparr> c_lat = 10.01, c_lng = 10.01 \<rparr>]]"
proof -
  have m: "memberPath annTracked 2 = [(10, 10), (10.01, 10.01)]"
    by (simp add: memberPath_def pathOf_def annTracked_state)
  have same: "fst (deleteMutation refusesDelete ''3/11/2026'' (annTracked, srv)) = annTracked" for srv
    by (simp add: deleteMutation_page refusesDelete_def)
  have once: "routesOf (snd (deleteMutation refusesDelete ''3/11/2026'' (annTracked, srv))) =
              routesOf srv @ [memberRoute exact ''3/11/2026'' (Some ridgeSession) 2 [(10, 10), (10.01, 10.01)]]"
    for srv
    by (simp add: routes_deleteMutation annTracked_state refusesDelete_def)
  have twice: "routesOf (snd (run refusesDelete ''3/11/2026'' [ClickEndSession, ClickEndSession] (annTracked, []))) =
     [memberRoute exact ''3/11/2026'' (Some ridgeSession) 2 [(10, 10), (10.01, 10.01)],
      memberRoute exact ''3/11/2026'' (Some ridgeSession) 2 [(10, 10), (10.01, 10.01)]]"
  proof -
    have "deleteMutation refusesDelete ''3/11/2026'' (annTracked, []) =
          (annTracked, snd (deleteMutation refusesDelete ''3/11/2026'' (annTracked, [])))"
      using same [of "[]"] by (metis prod.collapse)
    moreover have "step refusesDelete ''3/11/2026'' ClickEndSession cs =
                   deleteMutation refusesDelete ''3/11/2026'' cs" for cs
      by (cases cs) simp
    ultimately have "run refusesDelete ''3/11/2026'' [ClickEndSession, ClickEndSession] (annTracked, []) =
          deleteMutation refusesDelete ''3/11/2026''
            (annTracked, snd (deleteMutation refusesDelete ''3/11/2026'' (annTracked, [])))"
      by (simp add: run_def)
    then show ?thesis by (simp add: once)
  qed
  have kept: "memberPath (fst (deleteMutation acceptsAll ''3/11/2026'' (annTracked, []))) 2 =
     [(10, 10), (10.01, 10.01)]"
    by (simp add: memberPath_def pathOf_def annTracked_state)
  have ended: "routesOf (snd (deleteMutation acceptsAll ''3/11/2026'' (annTracked, []))) =
              [memberRoute exact ''3/11/2026'' (Some ridgeSession) 2 [(10, 10), (10.01, 10.01)]]"
    by (simp add: routes_deleteMutation annTracked_state acceptsAll_def)
  have both: "map pathCoordinates
     (routesOf (snd (leaveMutation acceptsAll ''3/11/2026''
        (bobTracked, snd (deleteMutation acceptsAll ''3/11/2026'' (annTracked, [])))))) =
     [[\<lparr> c_lat = 10, c_lng = 10 \<rparr>, \<lparr> c_lat = 10.01, c_lng = 10.01 \<rparr>],
      [\<lparr> c_lat = 10, c_lng = 10 \<rparr>, \<lparr> c_lat = 10.01, c_lng = 10.01 \<rparr>]]"
    by (simp add: routes_leaveMutation ended bobTracked_state bob_def acceptsAll_def
          memberRoute_def myRoute_def recordedRoute_def)
  from m same twice kept both show ?thesis by simp
qed

text \<open>
  Claim C2 as amended. A flush does not clear the paths held by the page: ending the
  session and leaving it both leave the path table unchanged, and the page either stays
  exactly as it was (a request failed) or navigates to the home page. Ending posts at
  most one route for each member, leaving posts at most one route.
\<close>

theorem flush_keeps_paths:
  "memberPaths (fst (deleteMutation accepts today (st, srv))) = memberPaths st \<and>
   memberPaths (fst (leaveMutation accepts today (st, srv))) = memberPaths st \<and>
   (fst (deleteMutation accepts today (st, srv)) = st \<or>
    location (fst (deleteMutation accepts today (st, srv))) = ''/'') \<and>
   (fst (leaveMutation accepts today (st, srv)) = st \<or>
    location (fst (leaveMutation accepts today (st, srv))) = ''/'') \<and>
   routesOf (snd (deleteMutation accepts today (st, srv))) =
     routesOf srv @
     map (\<lambda>e. memberRoute (numbers st) today (session st) (fst e) (snd e))
       (filter (\<lambda>e. 2 \<le> length (snd e) \<and>
                     accepts (PostRoute (memberRoute (numbers st) today (session st) (fst e) (snd e))))
          (memberPaths st)) \<and>
   (distinct (map fst (memberPaths st)) \<longrightarrow>
      length (filter (\<lambda>e. fst e = uid)
        (filter (\<lambda>e. 2 \<le> length (snd e) \<and>
                      accepts (PostRoute (memberRoute (numbers st) today (session st) (fst e) (snd e))))
           (memberPaths st))) \<le> 1) \<and>
   length (routesOf (snd (leaveMutation accepts today (st, srv)))) \<le> length (routesOf srv) + 1"
proof -
  have d: "fst (deleteMutation accepts today (st, srv)) = st \<or>
           location (fst (deleteMutation accepts today (st, srv))) = ''/''"
    by (simp add: deleteMutation_page)
  have l: "fst (leaveMutation accepts today (st, srv)) = st \<or>
           location (fst (leaveMutation accepts today (st, srv))) = ''/''"
    using leaveMutation_page [of accepts today st srv] by auto
  have one: "length (filter (\<lambda>e. fst e = uid)
        (filter (\<lambda>e. 2 \<le> length (snd e) \<and>
                      accepts (PostRoute (memberRoute (numbers st) today (session st) (fst e) (snd e))))
           (memberPaths st))) \<le> 1"
    if "distinct (map fst (memberPaths st))"
  proof -
    have "filter (\<lambda>e. fst e = uid)
        (filter (\<lambda>e. 2 \<le> length (snd e) \<and>
                      accepts (PostRoute (memberRoute (numbers st) today (session st) (fst e) (snd e))))
           (memberPaths st)) =
         filter (\<lambda>e. 2 \<le> length (snd e) \<and>
                      accepts (PostRoute (memberRoute (numbers st) today (session st) (fst e) (snd e))))
           (filter (\<lambda>e. fst e = uid) (memberPaths st))"
      by (simp add: conj_commute)
    then show ?thesis
      by (simp add: filter_key_distinct [OF that] split: option.splits)
  qed
  have lv: "length (routesOf (snd (leaveMutation accepts today (st, srv)))) \<le> length (routesOf srv) + 1"
    by (simp add: routes_leaveMutation split: option.splits)
  from d l one lv routes_deleteMutation [of accepts today st srv] show ?thesis
    by simp
qed

theorem flush_keeps_paths_witness:
  "distinct (map fst (memberPaths annTracked)) \<and>
   memberPaths (fst (deleteMutation acceptsAll ''3/11/2026'' (annTracked, []))) =
     [(1, [(10, 10)]), (2, [(10, 10), (10.01, 10.01)])] \<and>
   location (fst (deleteMutation acceptsAll ''3/11/2026'' (annTracked, []))) = ''/'' \<and>
   memberPaths (fst (leaveMutation acceptsAll ''3/11/2026'' (bobTracked, []))) =
     [(2, [(10, 10), (10.01, 10.01)])] \<and>
   length (routesOf (snd (leaveMutation acceptsAll ''3/11/2026'' (bobTracked, [])))) \<le> 1"
proof -
  have d: "distinct (map fst (memberPaths annTracked))" by (simp add: annTracked_state)
  have loc: "location (fst (deleteMutation acceptsAll ''3/11/2026'' (annTracked, []))) = ''/''"
    by (simp add: deleteMutation_page acceptsAll_def)
  show ?thesis
    using d loc flush_keeps_paths [where accepts = acceptsAll and today = "''3/11/2026''"
        and st = annTracked and srv = "[]" and uid = 2]
      flush_keeps_paths [where accepts = acceptsAll and today = "''3/11/2026''"
        and st = bobTracked and srv = "[]" and uid = 2]
    by (simp add: annTracked_state bobTracked_state)
qed

section \<open>The end of the session as the page sees it\<close>

lemma annLive_state:
  "sockets annLive =
     [\<lparr> ready = OPEN, createdBy = ViaConnect, handlers = currentClosure annPage \<rparr>]"
  "wsRef annLive = Some 0"
  "location annLive = ''/live-map/7''"
  "session annLive = Some ridgeSession"
  "user annLive = Some ann"
  "sessionId annLive = Some 7"
  "toasts annLive = []"
  "watches annLive = []"
  "watchIdRef annLive = None"
  "nextWatchId annLive = 1"
  "geolocation annLive"
  "sent annLive = [(0, Auth 1), (0, SessionJoin (Some 7))]"
  by (simp_all add: annLive_def socketOpened_def wsEffect_def annPage_def initialClient_def
        connect_def newSocket_def truthy_def connect_onopen_def setReady_def ann_def
        currentClosure_def)

text \<open>The router matches the page of a session whatever the case and with a slash at the end.\<close>

lemma matchRoute_examples:
  "matchRoute (st\<lparr> location := ''/live-map/7'' \<rparr>)"
  "matchRoute (st\<lparr> location := ''/live-map/7/'' \<rparr>)"
  "matchRoute (st\<lparr> location := ''/LIVE-MAP/7'' \<rparr>)"
  "\<not> matchRoute (st\<lparr> location := ''/live-map/'' \<rparr>)"
  "\<not> matchRoute (st\<lparr> location := ''/live-map/7/chat'' \<rparr>)"
  "\<not> matchRoute (st\<lparr> location := ''/'' \<rparr>)"
  by (simp_all add: matchRoute_def lowerCase_def Let_def)

lemma render_home: "location st = ''/'' \<Longrightarrow> render ui st = Blank"
  by (simp add: render_def matchRoute_def Let_def)

text \<open>
  Claim C6 as it stands fails. Ann is looking at the active session when \<open>session:ended\<close>
  arrives on her socket: the page shows the notice and navigates to the home page; the
  page of the session, read-only or not, is no longer rendered.
\<close>

theorem session_ended_read_only_counterexample:
  "render noPanel annLive =
     SessionPage \<lparr> endedBanner = False, endedSuffix = False, copyShareCode = True,
                   headerAction = EndSession, toolbarAddWaypoint = True,
                   toolbarDrawRoute = True, drawingSave = False, drawingImportSaved = False,
                   routeDetailEdit = False, routeDetailDelete = False,
                   panelDrawNewRoute = False, panelImportSaved = False \<rparr> \<and>
   toasts (socketMessage 0 SessionEnded 9000 annLive) = [sessionEndedNotice] \<and>
   location (socketMessage 0 SessionEnded 9000 annLive) = ''/'' \<and>
   render noPanel (socketMessage 0 SessionEnded 9000 annLive) = Blank \<and>
   \<not> isSessionEnded (socketMessage 0 SessionEnded 9000 annLive)"
  by (simp add: socketMessage_def annLive_state render_def matchRoute_def lowerCase_def
        isSessionEnded_def isOwner_def ridgeSession_def ann_def noPanel_def Let_def)

text \<open>
  Claim C6, amended. When \<open>session:ended\<close> arrives on a socket opened by \<open>connect\<close>, the
  page adds one \<open>Session ended\<close> notice and navigates to the home page, so that the page
  of the session is rendered no more, whatever panel was open. A session that is loaded
  as inactive is presented as ended: its page shows the banner and the \<open>(Ended)\<close>
  suffix, offers \<open>Back to Map\<close> in place of ending or leaving and hides the button that
  copies the share code; in the routes panel \<open>Draw New Route\<close> and \<open>Import Saved\<close> are
  disabled and the buttons that remove a route are hidden.
\<close>

theorem session_ended_notice_and_archive:
  assumes "ws < length (sockets st)" and "createdBy (sockets st ! ws) = ViaConnect"
  shows "socketMessage ws SessionEnded now st =
           st\<lparr> toasts := toasts st @ [sessionEndedNotice], location := ''/'' \<rparr> \<and>
         render ui (socketMessage ws SessionEnded now st) = Blank \<and>
         (isSessionEnded st \<longrightarrow> render ui st = SessionPage v \<longrightarrow>
            endedBanner v \<and> endedSuffix v \<and> \<not> copyShareCode v \<and> headerAction v = BackToMap \<and>
            \<not> panelDrawNewRoute v \<and> \<not> panelImportSaved v \<and>
            \<not> removeRouteButton ui st creator)"
proof -
  have m: "socketMessage ws SessionEnded now st =
           st\<lparr> toasts := toasts st @ [sessionEndedNotice], location := ''/'' \<rparr>"
    using assms by (simp add: socketMessage_def)
  have r: "render ui (socketMessage ws SessionEnded now st) = Blank"
    unfolding m by (simp add: render_home)
  have a: "isSessionEnded st \<longrightarrow> render ui st = SessionPage v \<longrightarrow>
            endedBanner v \<and> endedSuffix v \<and> \<not> copyShareCode v \<and> headerAction v = BackToMap \<and>
            \<not> panelDrawNewRoute v \<and> \<not> panelImportSaved v \<and>
            \<not> removeRouteButton ui st creator"
    by (auto simp add: render_def removeRouteButton_def split: if_splits)
  from m r a show ?thesis by simp
qed

theorem session_ended_notice_and_archive_witness:
  "0 < length (sockets annLive) \<and> createdBy (sockets annLive ! 0) = ViaConnect \<and>
   toasts (socketMessage 0 SessionEnded 9000 annLive) = [sessionEndedNotice] \<and>
   location (socketMessage 0 SessionEnded 9000 annLive) = ''/'' \<and>
   render routesPanel (socketMessage 0 SessionEnded 9000 annLive) = Blank \<and>
   0 < length (sockets annArchive) \<and> createdBy (sockets annArchive ! 0) = ViaConnect \<and>
   isSessionEnded annArchive \<and>
   render routesPanel annArchive =
     SessionPage \<lparr> endedBanner = True, endedSuffix = True, copyShareCode = False,
                   headerAction = BackToMap, toolbarAddWaypoint = True,
                   toolbarDrawRoute = True, drawingSave = False, drawingImportSaved = False,
                   routeDetailEdit = False, routeDetailDelete = False,
                   panelDrawNewRoute = False, panelImportSaved = False \<rparr> \<and>
   \<not> removeRouteButton routesPanel annArchive 1"
proof -
  have h: "0 < length (sockets annLive)" "createdBy (sockets annLive ! 0) = ViaConnect"
    by (simp_all add: annLive_state)
  have h': "0 < length (sockets annArchive)" "createdBy (sockets annArchive ! 0) = ViaConnect"
    by (simp_all add: annArchive_def annLive_state)
  have e: "isSessionEnded annArchive"
    by (simp add: isSessionEnded_def annArchive_def)
  have v: "render routesPanel annArchive =
     SessionPage \<lparr> endedBanner = True, endedSuffix = True, copyShareCode = False,
                   headerAction = BackToMap, toolbarAddWaypoint = True,
                   toolbarDrawRoute = True, drawingSave = False, drawingImportSaved = False,
                   routeDetailEdit = False, routeDetailDelete = False,
                   panelDrawNewRoute = False, panelImportSaved = False \<rparr>"
    by (simp add: render_def matchRoute_def lowerCase_def isSessionEnded_def annArchive_def
          annLive_state routesPanel_def noPanel_def Let_def)
  have m: "socketMessage 0 SessionEnded 9000 annLive =
             annLive\<lparr> toasts := toasts annLive @ [sessionEndedNotice], location := ''/'' \<rparr> \<and>
           render routesPanel (socketMessage 0 SessionEnded 9000 annLive) = Blank"
    using session_ended_notice_and_archive [OF h, where now = 9000 and ui = routesPanel] by blast
  have n: "\<not> removeRouteButton routesPanel annArchive 1"
    using session_ended_notice_and_archive [OF h', where creator = 1 and ui = routesPanel] e v
    by blast
  show ?thesis
    using h h' e v n m by (simp add: annLive_state render_home)
qed

section \<open>Forwarding the own position\<close>

lemma annWatching_state:
  "watches annWatching = [1]"
  "watchIdRef annWatching = Some 1"
  "nextWatchId annWatching = 2"
  "wsRef annWatching = Some 0"
  "socketOpen annWatching"
  "sent annWatching = [(0, Auth 1), (0, SessionJoin (Some 7))]"
  "truthy (sessionId annWatching)"
  "user annWatching \<noteq> None"
  "geolocation annWatching"
  by (simp_all add: annWatching_def locationEffect_def watchPosition_def annLive_state
        socketOpen_def truthy_def)

text \<open>
  Claim C8. While the current socket of the page is open, every fix that the location
  provider delivers to a registered subscription is sent on that socket as one
  \<open>session:location\<close> message with the latitude, longitude, accuracy and heading of the
  fix. The location effect registers a subscription when the page has a socket and a
  user, and every return to the foreground of an active page (session id and user
  present, provider available) clears the subscription the page holds and registers a
  fresh one.
\<close>

theorem location_fixes_forwarded:
  "(w \<in> set (watches st) \<longrightarrow> wsRef st = Some ws \<longrightarrow> socketOpen st \<longrightarrow>
      sent (gpsFix w pos st) =
        sent st @ [(ws, SessionLocation (pos_latitude pos) (pos_longitude pos)
                          (pos_accuracy pos) (pos_heading pos))]) \<and>
   (wsRef st \<noteq> None \<longrightarrow> user st \<noteq> None \<longrightarrow> geolocation st \<longrightarrow>
      watchIdRef (locationEffect st) = Some (nextWatchId st) \<and>
      watches (locationEffect st) = watches st @ [nextWatchId st]) \<and>
   (truthy (sessionId st) \<longrightarrow> user st \<noteq> None \<longrightarrow> geolocation st \<longrightarrow>
      watchIdRef (foregroundResume st) = Some (nextWatchId st) \<and>
      watches (foregroundResume st) =
        (case watchIdRef st of None \<Rightarrow> watches st | Some old \<Rightarrow> removeAll old (watches st)) @
        [nextWatchId st] \<and>
      nextWatchId st \<in> set (watches (foregroundResume st)) \<and>
      nextWatchId (foregroundResume st) = nextWatchId st + 1)"
proof -
  have a: "sent (gpsFix w pos st) =
        sent st @ [(ws, SessionLocation (pos_latitude pos) (pos_longitude pos)
                          (pos_accuracy pos) (pos_heading pos))]"
    if "w \<in> set (watches st)" and "wsRef st = Some ws" and "socketOpen st"
    using that by (simp add: gpsFix_def onPosition_def Let_def)
  have b: "watchIdRef (locationEffect st) = Some (nextWatchId st) \<and>
      watches (locationEffect st) = watches st @ [nextWatchId st]"
    if "wsRef st \<noteq> None" and "user st \<noteq> None" and "geolocation st"
    using that by (auto simp add: locationEffect_def watchPosition_def)
  have c: "watchIdRef (foregroundResume st) = Some (nextWatchId st) \<and>
      watches (foregroundResume st) =
        (case watchIdRef st of None \<Rightarrow> watches st | Some old \<Rightarrow> removeAll old (watches st)) @
        [nextWatchId st] \<and>
      nextWatchId st \<in> set (watches (foregroundResume st)) \<and>
      nextWatchId (foregroundResume st) = nextWatchId st + 1"
    if "truthy (sessionId st)" and "user st \<noteq> None" and "geolocation st"
    using that
    by (auto simp add: foregroundResume_def handleLiveMapResume_def Let_def newSocket_def
          clearWatch_def watchPosition_def invalidateQueries_def split: option.splits)
  from a b c show ?thesis by blast
qed

theorem location_fixes_forwarded_witness:
  "1 \<in> set (watches annWatching) \<and> wsRef annWatching = Some 0 \<and> socketOpen annWatching \<and>
   sent (gpsFix 1 fixAtRidge annWatching) =
     [(0, Auth 1), (0, SessionJoin (Some 7)), (0, SessionLocation 43.5 (-110.8) 12 None)] \<and>
   truthy (sessionId annWatching) \<and> user annWatching \<noteq> None \<and> geolocation annWatching \<and>
   watchIdRef (foregroundResume annWatching) = Some 2 \<and>
   watches (foregroundResume annWatching) = [2]"
  using location_fixes_forwarded [where st = annWatching and w = 1 and ws = 0 and pos = fixAtRidge]
  by (simp add: annWatching_state fixAtRidge_def)

end
